theory Spec2Isabelle
  imports Complex_Main
begin

text \<open>
  A shallow embedding of the interactive-shell core of the agent: the command tokenizer
  and subcommand classifier, the session registry hook with its persistence, the output
  stall detector, the decision table of the TTY input-wait detector and the
  keystroke-sending entry point.

  Conventions. Everything the TypeScript code reads from or does to the outside is a
  parameter or a returned value: the module-level variables and the files are the record
  \<open>world\<close>, spawned processes and sleeps are returned as lists, and what a spawned
  process answers is an argument. A \<^verbatim>\<open>number\<close> that counts or measures milliseconds is an
  \<^typ>\<open>int\<close>. A field called \<^verbatim>\<open>value\<close> in the source is \<open>val\<close> here, and the
  \<^verbatim>\<open>output\<close> of \<^verbatim>\<open>ShellInteractResult\<close> is \<open>outputText\<close>, since the names are taken.
\<close>

section \<open>Strings\<close>

text \<open>
  A TypeScript string is modelled as a \<^typ>\<open>string\<close>, one \<^typ>\<open>char\<close> per character.
  The characters the code compares against are named here; every other character is
  ordinary text.
\<close>

definition backslash :: char where
  "backslash = CHR 0x5C"

definition squote :: char where
  "squote = CHR 0x27"

definition dquote :: char where
  "dquote = CHR 0x22"

definition space :: char where
  "space = CHR 0x20"

definition tab :: char where
  "tab = CHR 0x09"

definition newline :: char where
  "newline = CHR 0x0A"

lemmas char_names = backslash_def squote_def dquote_def space_def tab_def newline_def

text \<open>\<^verbatim>\<open>s.startsWith(p)\<close>.\<close>

definition startsWith :: "string \<Rightarrow> string \<Rightarrow> bool" where
  "startsWith s p = (take (length p) s = p)"

text \<open>\<^verbatim>\<open>xs.join(sep)\<close>.\<close>

fun join :: "string list \<Rightarrow> string \<Rightarrow> string" where
  "join [] sep = []"
| "join [x] sep = x"
| "join (x # y # ys) sep = x @ sep @ join (y # ys) sep"

section \<open>TTY input-wait detector: the decision of \<^verbatim>\<open>detectLinuxProcTtyWait\<close>\<close>

datatype confidence = Low | Medium | High

record ProcSignal =
  name :: string
  val :: string
  indicatesInputWait :: bool

text \<open>
  The four signals as \<^verbatim>\<open>detectLinuxProcTtyWait\<close> pushes them, in order; the value
  texts are what the process files held and play no part in the decision.
\<close>

definition collectSignals ::
    "string \<Rightarrow> bool \<Rightarrow> string \<Rightarrow> bool \<Rightarrow> bool \<Rightarrow> string \<Rightarrow> bool \<Rightarrow> ProcSignal list" where
  "collectSignals stdinVal stdinMatchesTty wchanVal wchanIndicatesTtyRead
       stackIndicatesTtyRead syscallVal syscallIndicatesStdinRead =
     [\<lparr>name = ''stdin_fd'', val = stdinVal, indicatesInputWait = stdinMatchesTty\<rparr>,
      \<lparr>name = ''wchan'', val = wchanVal, indicatesInputWait = wchanIndicatesTtyRead\<rparr>,
      \<lparr>name = ''stack'',
        val = (if stackIndicatesTtyRead then ''contains tty_read frames'' else ''no tty_read''),
        indicatesInputWait = stackIndicatesTtyRead\<rparr>,
      \<lparr>name = ''syscall'', val = syscallVal, indicatesInputWait = syscallIndicatesStdinRead\<rparr>]"

text \<open>The \<^verbatim>\<open>if\<close> chain that sets \<^verbatim>\<open>confidence\<close> and \<^verbatim>\<open>detected\<close>.\<close>

definition decideTtyWait ::
    "ProcSignal list \<Rightarrow> bool \<Rightarrow> bool \<Rightarrow> bool \<Rightarrow> bool \<Rightarrow> bool \<times> confidence" where
  "decideTtyWait signals stdinMatchesTty wchanIndicatesTtyRead stackIndicatesTtyRead
       syscallIndicatesStdinRead =
     (let positiveSignals = length (filter indicatesInputWait signals)
      in if stdinMatchesTty \<and> (wchanIndicatesTtyRead \<or> stackIndicatesTtyRead) then (True, High)
         else if stdinMatchesTty \<and> (syscallIndicatesStdinRead \<or> positiveSignals \<ge> 2)
           then (True, Medium)
         else if positiveSignals \<ge> 1 then (True, Low)
         else (False, Low))"

definition ttyVerdict :: "bool \<Rightarrow> bool \<Rightarrow> bool \<Rightarrow> bool \<Rightarrow> bool \<times> confidence" where
  "ttyVerdict stdinMatch wchanMatch stackMatch syscallMatch =
     decideTtyWait
       (collectSignals ''unknown'' stdinMatch ''unknown'' wchanMatch stackMatch ''unknown''
          syscallMatch)
       stdinMatch wchanMatch stackMatch syscallMatch"

text \<open>The table of the specification, in its own words: the number of positive signals
  is the number of the four that hold, and the first matching row decides.\<close>

definition positiveCount :: "bool \<Rightarrow> bool \<Rightarrow> bool \<Rightarrow> bool \<Rightarrow> nat" where
  "positiveCount a b c d = of_bool a + of_bool b + of_bool c + of_bool d"

definition specTtyTable :: "bool \<Rightarrow> bool \<Rightarrow> bool \<Rightarrow> bool \<Rightarrow> bool \<times> confidence" where
  "specTtyTable stdinMatch wchanMatch stackMatch syscallMatch =
     (if stdinMatch \<and> (wchanMatch \<or> stackMatch) then (True, High)
      else if stdinMatch \<and> (syscallMatch \<or> positiveCount stdinMatch wchanMatch stackMatch syscallMatch \<ge> 2)
        then (True, Medium)
      else if positiveCount stdinMatch wchanMatch stackMatch syscallMatch \<ge> 1 then (True, Low)
      else (False, Low))"

text \<open>The order \<open>low < medium < high\<close>.\<close>

fun rank :: "confidence \<Rightarrow> nat" where
  "rank Low = 0"
| "rank Medium = 1"
| "rank High = 2"

section \<open>Command tokenizer and subcommand classifier\<close>

text \<open>The loop variables of \<^verbatim>\<open>tokenizeCommand\<close>; \<open>quoteChar\<close> is the empty string
  outside a quoted group.\<close>

record tokState =
  tokens :: "string list"
  current :: string
  inQuote :: bool
  quoteChar :: string
  escaped :: bool

definition tokInit :: tokState where
  "tokInit = \<lparr>tokens = [], current = [], inQuote = False, quoteChar = [], escaped = False\<rparr>"

text \<open>One pass of the body of \<^verbatim>\<open>for (const char of cmd)\<close>.\<close>

definition tokStep :: "tokState \<Rightarrow> char \<Rightarrow> tokState" where
  "tokStep st c =
     (if escaped st then st\<lparr>current := current st @ [c], escaped := False\<rparr>
      else if c = backslash then st\<lparr>escaped := True\<rparr>
      else if (c = squote \<or> c = dquote) \<and> \<not> inQuote st
        then st\<lparr>inQuote := True, quoteChar := [c]\<rparr>
      else if [c] = quoteChar st \<and> inQuote st
        then st\<lparr>inQuote := False, quoteChar := []\<rparr>
      else if c = space \<and> \<not> inQuote st
        then (if current st \<noteq> [] then st\<lparr>tokens := tokens st @ [current st], current := []\<rparr>
              else st)
      else st\<lparr>current := current st @ [c]\<rparr>)"

definition tokRun :: "tokState \<Rightarrow> string \<Rightarrow> tokState" where
  "tokRun st cmd = foldl tokStep st cmd"

text \<open>After the loop: a pending \<open>current\<close> is pushed.\<close>

definition tokFinish :: "tokState \<Rightarrow> string list" where
  "tokFinish st = (if current st \<noteq> [] then tokens st @ [current st] else tokens st)"

definition tokenizeCommand :: "string \<Rightarrow> string list" where
  "tokenizeCommand cmd = tokFinish (tokRun tokInit cmd)"



definition globalOptionsWithArgs :: "string list" where
  "globalOptionsWithArgs = [''-L'', ''-S'', ''-f'', ''-c'', ''-T'']"

text \<open>\<^verbatim>\<open>findSubcommand\<close>: the \<^verbatim>\<open>while\<close> loop over the index is recursion over the
  remaining tokens; \<^verbatim>\<open>i += 2\<close> past the end leaves the loop.\<close>

fun findSubcommand :: "string list \<Rightarrow> string" where
  "findSubcommand [] = []"
| "findSubcommand (token # rest) =
     (if token = ''--'' then (case rest of [] \<Rightarrow> [] | next # _ \<Rightarrow> next)
      else if token \<in> set globalOptionsWithArgs
        then (case rest of [] \<Rightarrow> [] | _ # rest' \<Rightarrow> findSubcommand rest')
      else if startsWith token ''-'' then findSubcommand rest
      else token)"

section \<open>Session registry\<close>

text \<open>
  A JavaScript \<^verbatim>\<open>Set<string>\<close> keeps its members in insertion order without
  duplicates; it is a list here, with the operations the code calls.
\<close>

definition setAdd :: "string list \<Rightarrow> string \<Rightarrow> string list" where
  "setAdd s x = (if x \<in> set s then s else s @ [x])"

definition setDelete :: "string list \<Rightarrow> string \<Rightarrow> string list" where
  "setDelete s x = filter (\<lambda>y. y \<noteq> x) s"

definition newSet :: "string list \<Rightarrow> string list" where
  "newSet xs = foldl setAdd [] xs"

record ShellInteractSessionState =
  sessionID :: string
  tmuxSessions :: "string list"
  updatedAt :: int

record SerializedShellInteractSessionState =
  ser_sessionID :: string
  ser_tmuxSessions :: "string list"
  ser_updatedAt :: int

text \<open>
  What a file under the storage directory holds. The text layer belongs to the runtime:
  \<^verbatim>\<open>JSON.stringify\<close> writes a serialized state as a document, and \<^verbatim>\<open>JSON.parse\<close> reads
  such a document back as the same value or raises on any other text. A document of
  another shape is not a \<^verbatim>\<open>SerializedShellInteractSessionState\<close> and is not among the
  contents modelled.
\<close>

datatype fileContent = JsonDoc SerializedShellInteractSessionState | Unreadable

definition JSON_stringify :: "SerializedShellInteractSessionState \<Rightarrow> fileContent" where
  "JSON_stringify serialized = JsonDoc serialized"

definition JSON_parse :: "fileContent \<Rightarrow> SerializedShellInteractSessionState option" where
  "JSON_parse content = (case content of JsonDoc serialized \<Rightarrow> Some serialized | Unreadable \<Rightarrow> None)"

subsection \<open>Paths\<close>

text \<open>
  A path as \<^verbatim>\<open>path.join\<close> returns it on a POSIX system: whether it is absolute, and its
  segments after normalisation (empty segments and \<open>.\<close> dropped, \<open>..\<close> resolved against
  the segment before it). A trailing separator names the same file and is not kept.
\<close>

type_synonym path = "bool \<times> string list"

text \<open>\<^verbatim>\<open>s.split(sep)\<close> for a separator of one character.\<close>

fun splitOn :: "char \<Rightarrow> string \<Rightarrow> string list" where
  "splitOn sep [] = [[]]"
| "splitOn sep (c # cs) =
     (if c = sep then [] # splitOn sep cs
      else (case splitOn sep cs of [] \<Rightarrow> [[c]] | seg # segs \<Rightarrow> (c # seg) # segs))"

text \<open>One segment of the normalisation loop; \<open>res\<close> is the normalised part so far.\<close>

definition normStep :: "bool \<Rightarrow> string list \<Rightarrow> string \<Rightarrow> string list" where
  "normStep allowAboveRoot res seg =
     (if seg = [] \<or> seg = ''.'' then res
      else if seg = ''..'' then
        (if res \<noteq> [] \<and> last res \<noteq> ''..'' then butlast res
         else if allowAboveRoot then res @ [''..'']
         else res)
      else res @ [seg])"

text \<open>The path a string denotes, and \<^verbatim>\<open>path.join(p, s)\<close> for a path already joined and
  a further string that is not empty.\<close>

definition pathOf :: "string \<Rightarrow> path" where
  "pathOf s =
     (let isAbsolute = (s \<noteq> [] \<and> hd s = CHR ''/'')
      in (isAbsolute, foldl (normStep (\<not> isAbsolute)) [] (splitOn (CHR ''/'') s)))"

definition pathJoin :: "path \<Rightarrow> string \<Rightarrow> path" where
  "pathJoin p s = (fst p, foldl (normStep (\<not> fst p)) (snd p) (splitOn (CHR ''/'') s))"

definition parentPath :: "path \<Rightarrow> path" where
  "parentPath p = (fst p, butlast (snd p))"

text \<open>The path and its ancestors below the root, outermost first.\<close>

fun prefixesFrom :: "string list \<Rightarrow> string list \<Rightarrow> string list list" where
  "prefixesFrom acc [] = []"
| "prefixesFrom acc (s # ss) = (acc @ [s]) # prefixesFrom (acc @ [s]) ss"

definition pathPrefixes :: "path \<Rightarrow> path list" where
  "pathPrefixes p = map (Pair (fst p)) (prefixesFrom [] (snd p))"

text \<open>The file-system calls raise on a path that holds a NUL character.\<close>

definition hasNul :: "path \<Rightarrow> bool" where
  "hasNul p = list_ex (\<lambda>seg. CHR 0x00 \<in> set seg) (snd p)"

subsection \<open>The state of the process and of the file system\<close>

text \<open>
  The state the module works on: the in-memory map \<^verbatim>\<open>sessionStates\<close>, the variable
  \<^verbatim>\<open>currentSessionId\<close>, the cached multiplexer path, the home directory and the reading
  of \<^verbatim>\<open>Date.now()\<close> (one call of the hook is taken to read the same time at each
  \<^verbatim>\<open>Date.now()\<close>); and the file system: the regular files with their contents, the
  directories, and the paths that the operating system refuses to create or write
  (permissions, a read-only or full disk). The root and the working directory exist.
  Symbolic links and other processes changing the files during a call are not
  modelled.
\<close>

record world =
  sessionStates :: "string \<rightharpoonup> ShellInteractSessionState"
  currentSessionId :: "string option"
  tmuxPath :: "string option"
  files :: "path \<rightharpoonup> fileContent"
  dirs :: "path set"
  refused :: "path set"
  homeDir :: string
  nowMs :: int

datatype fsError = EINVAL | ENOENT | ENOTDIR | EISDIR | EEXIST | EACCES

text \<open>What a call that may raise gives: the error raised, or the value returned.\<close>

type_synonym 'a outcome = "fsError + 'a"

definition isDir :: "world \<Rightarrow> path \<Rightarrow> bool" where
  "isDir w p = (snd p = [] \<or> p \<in> dirs w)"

text \<open>\<^verbatim>\<open>existsSync\<close> never raises; it answers false on a path it cannot use.\<close>

definition existsSync :: "world \<Rightarrow> path \<Rightarrow> bool" where
  "existsSync w p = (\<not> hasNul p \<and> (isDir w p \<or> files w p \<noteq> None))"

text \<open>\<^verbatim>\<open>mkdirSync(p, {recursive: true})\<close>: the missing directories are made from the
  outermost inwards; a regular file in the way, or a refusal, raises and leaves what
  was made so far.\<close>

fun mkdirs :: "path list \<Rightarrow> world \<Rightarrow> unit outcome \<times> world" where
  "mkdirs [] w = (Inr (), w)"
| "mkdirs (q # qs) w =
     (if files w q \<noteq> None then (Inl (if qs = [] then EEXIST else ENOTDIR), w)
      else if isDir w q then mkdirs qs w
      else if q \<in> refused w then (Inl EACCES, w)
      else mkdirs qs (w\<lparr>dirs := insert q (dirs w)\<rparr>))"

definition mkdirSync :: "path \<Rightarrow> world \<Rightarrow> unit outcome \<times> world" where
  "mkdirSync p w = (if hasNul p then (Inl EINVAL, w) else mkdirs (pathPrefixes p) w)"

text \<open>\<^verbatim>\<open>writeFileSync\<close>: the file is created or replaced as a whole when its directory
  exists; it creates no directory.\<close>

definition writeFileSync :: "path \<Rightarrow> fileContent \<Rightarrow> world \<Rightarrow> unit outcome \<times> world" where
  "writeFileSync p content w =
     (if hasNul p then (Inl EINVAL, w)
      else if snd p = [] then (Inl EISDIR, w)
      else if \<not> isDir w (parentPath p)
        then (Inl (if files w (parentPath p) \<noteq> None then ENOTDIR else ENOENT), w)
      else if p \<in> dirs w then (Inl EISDIR, w)
      else if p \<in> refused w then (Inl EACCES, w)
      else (Inr (), w\<lparr>files := (files w)(p \<mapsto> content)\<rparr>))"

text \<open>\<^verbatim>\<open>readFileSync\<close>: the content of a regular file; anything else raises.\<close>

definition readFileSync :: "path \<Rightarrow> world \<Rightarrow> fileContent outcome" where
  "readFileSync p w =
     (if hasNul p then Inl EINVAL
      else (case files w p of
              Some content \<Rightarrow> Inr content
            | None \<Rightarrow> Inl (if isDir w p then EISDIR else ENOENT)))"

text \<open>\<^verbatim>\<open>unlinkSync\<close>: removes a regular file.\<close>

definition unlinkSync :: "path \<Rightarrow> world \<Rightarrow> unit outcome \<times> world" where
  "unlinkSync p w =
     (if hasNul p then (Inl EINVAL, w)
      else if files w p = None then (Inl (if isDir w p then EISDIR else ENOENT), w)
      else if p \<in> refused w then (Inl EACCES, w)
      else (Inr (), w\<lparr>files := (files w)(p := None)\<rparr>))"

subsection \<open>Storage of the session state\<close>

definition CEA_SESSION_PREFIX :: string where
  "CEA_SESSION_PREFIX = ''cea-''"

text \<open>\<^verbatim>\<open>join(homedir(), ".code-editing-agent", "sessions")\<close>.\<close>

definition STORAGE_DIR :: "world \<Rightarrow> path" where
  "STORAGE_DIR w = pathJoin (pathJoin (pathOf (homeDir w)) ''.code-editing-agent'') ''sessions''"

definition getSessionFilePath :: "world \<Rightarrow> string \<Rightarrow> path" where
  "getSessionFilePath w sid = pathJoin (STORAGE_DIR w) (sid @ ''.json'')"

definition ensureStorageDir :: "world \<Rightarrow> unit outcome \<times> world" where
  "ensureStorageDir w =
     (if \<not> existsSync w (STORAGE_DIR w) then mkdirSync (STORAGE_DIR w) w else (Inr (), w))"

text \<open>The loader answers \<^verbatim>\<open>null\<close> when the file does not exist and when anything in its
  \<^verbatim>\<open>try\<close> block raises.\<close>

definition loadShellInteractSessionState ::
    "string \<Rightarrow> world \<Rightarrow> ShellInteractSessionState option" where
  "loadShellInteractSessionState sid w =
     (let filePath = getSessionFilePath w sid
      in if \<not> existsSync w filePath then None
         else (case readFileSync filePath w of
                 Inl e \<Rightarrow> None
               | Inr content \<Rightarrow>
                   (case JSON_parse content of
                      None \<Rightarrow> None
                    | Some serialized \<Rightarrow>
                        Some \<lparr>sessionID = ser_sessionID serialized,
                              tmuxSessions = newSet (ser_tmuxSessions serialized),
                              updatedAt = ser_updatedAt serialized\<rparr>)))"

text \<open>The saver catches nothing: what \<^verbatim>\<open>mkdirSync\<close> or \<^verbatim>\<open>writeFileSync\<close> raises, it
  raises.\<close>

definition saveShellInteractSessionState ::
    "ShellInteractSessionState \<Rightarrow> world \<Rightarrow> unit outcome \<times> world" where
  "saveShellInteractSessionState state w =
     (case ensureStorageDir w of
        (Inl e, w1) \<Rightarrow> (Inl e, w1)
      | (Inr u, w1) \<Rightarrow>
          (let filePath = getSessionFilePath w1 (sessionID state);
               serialized = \<lparr>ser_sessionID = sessionID state,
                             ser_tmuxSessions = tmuxSessions state,
                             ser_updatedAt = updatedAt state\<rparr>
           in writeFileSync filePath (JSON_stringify serialized) w1))"

text \<open>\<^verbatim>\<open>clearShellInteractSessionState\<close> ignores what \<^verbatim>\<open>unlinkSync\<close> raises.\<close>

definition clearShellInteractSessionState :: "string \<Rightarrow> world \<Rightarrow> world" where
  "clearShellInteractSessionState sid w =
     (let filePath = getSessionFilePath w sid
      in if existsSync w filePath then snd (unlinkSync filePath w) else w)"

text \<open>\<^verbatim>\<open>name.split(":")[0].split(".")[0]\<close>.\<close>

definition normalizeSessionName :: "string \<Rightarrow> string" where
  "normalizeSessionName nm = takeWhile (\<lambda>c. c \<noteq> CHR ''.'') (takeWhile (\<lambda>c. c \<noteq> CHR '':'') nm)"

fun findFlagValue :: "string list \<Rightarrow> string \<Rightarrow> string option" where
  "findFlagValue (t # u # rest) flag =
     (if t = flag then Some u else findFlagValue (u # rest) flag)"
| "findFlagValue _ flag = None"

text \<open>A flag value counts when it is found and is not the empty string.\<close>

definition truthy :: "string option \<Rightarrow> bool" where
  "truthy v = (case v of None \<Rightarrow> False | Some x \<Rightarrow> x \<noteq> [])"

definition extractSessionNameFromTokens :: "string list \<Rightarrow> string \<Rightarrow> string option" where
  "extractSessionNameFromTokens toks subCommand =
     (if subCommand = ''new-session'' then
        (let sFlag = findFlagValue toks ''-s'' in
         if truthy sFlag then map_option normalizeSessionName sFlag
         else (let tFlag = findFlagValue toks ''-t'' in
               if truthy tFlag then map_option normalizeSessionName tFlag else None))
      else
        (let tFlag = findFlagValue toks ''-t'' in
         if truthy tFlag then map_option normalizeSessionName tFlag else None))"

definition isCeaSession :: "string option \<Rightarrow> bool" where
  "isCeaSession sessionName =
     (case sessionName of None \<Rightarrow> False | Some n \<Rightarrow> startsWith n CEA_SESSION_PREFIX)"

text \<open>The state object is shared with the map: what the caller changes afterwards is
  written back under the same key (see \<open>shellInteractHook\<close>).\<close>

definition getOrCreateState :: "string \<Rightarrow> world \<Rightarrow> ShellInteractSessionState \<times> world" where
  "getOrCreateState sid w =
     (case sessionStates w sid of
        Some existing \<Rightarrow> (existing, w)
      | None \<Rightarrow>
          (let state = (case loadShellInteractSessionState sid w of
                          Some persisted \<Rightarrow> persisted
                        | None \<Rightarrow> \<lparr>sessionID = sid, tmuxSessions = [], updatedAt = nowMs w\<rparr>)
           in (state, w\<lparr>sessionStates := (sessionStates w)(sid \<mapsto> state)\<rparr>)))"

definition buildSessionReminderMessage :: "string list \<Rightarrow> string option \<Rightarrow> string" where
  "buildSessionReminderMessage sessions newlyCreated =
     (if sessions = [] then []
      else
        (let message = [newline, newline] @ ''[System Reminder] Active cea-* tmux sessions: ''
                         @ join sessions '', ''
         in if truthy newlyCreated then
              message @ [newline] @ ''[Action Required] Background process started in ''
                @ [squote] @ the newlyCreated @ [squote] @ ''. Before reporting completion:''
                @ [newline] @ ''  1. Wait: shell_execute sleep 2-5''
                @ [newline] @ ''  2. Verify output: shell_execute tmux capture-pane -t ''
                @ the newlyCreated @ '' -p''
                @ [newline] @ ''  3. For servers: test the endpoint (e.g., curl localhost:PORT)''
            else message))"

text \<open>The hook has no \<^verbatim>\<open>try\<close>: when the save raises, the hook raises the same error
  and returns no result; the state in memory has been changed by then.\<close>

record ToolExecuteResult =
  "output" :: string
  sessionReminder :: "string option"

definition shellInteractHook ::
    "string \<Rightarrow> string \<Rightarrow> string \<Rightarrow> world \<Rightarrow> ToolExecuteResult outcome \<times> world" where
  "shellInteractHook sid tmuxCommand toolOutput w =
     (if startsWith toolOutput ''Error:''
      then (Inr \<lparr>output = toolOutput, sessionReminder = None\<rparr>, w)
      else
        (let toks = tokenizeCommand tmuxCommand;
             subCommand = findSubcommand toks;
             (state, w1) = getOrCreateState sid w;
             isNewSession = (subCommand = ''new-session'');
             isKillSession = (subCommand = ''kill-session'');
             isKillServer = (subCommand = ''kill-server'');
             sessionName = extractSessionNameFromTokens toks subCommand;
             (state2, stateChanged) =
               (if isNewSession \<and> isCeaSession sessionName
                  then (state\<lparr>tmuxSessions := setAdd (tmuxSessions state) (the sessionName)\<rparr>, True)
                else if isKillSession \<and> isCeaSession sessionName
                  then (state\<lparr>tmuxSessions := setDelete (tmuxSessions state) (the sessionName)\<rparr>,
                        True)
                else if isKillServer then (state\<lparr>tmuxSessions := []\<rparr>, True)
                else (state, False));
             (saved, state3, w2) =
               (if stateChanged
                  then (let st = state2\<lparr>updatedAt := nowMs w1\<rparr>;
                            (r, w') = saveShellInteractSessionState st
                                        (w1\<lparr>sessionStates := (sessionStates w1)(sid \<mapsto> st)\<rparr>)
                        in (r, st, w'))
                else (Inr (), state2, w1))
         in case saved of
              Inl e \<Rightarrow> (Inl e, w2)
            | Inr u \<Rightarrow>
                (let isSessionOperation = (isNewSession \<or> isKillSession \<or> isKillServer);
                     reminder =
                       (if isSessionOperation
                          then Some (buildSessionReminderMessage (tmuxSessions state3)
                                 (if isNewSession \<and> isCeaSession sessionName then sessionName
                                  else None))
                        else None)
                 in (Inr \<lparr>output = (if truthy reminder then toolOutput @ the reminder
                                      else toolOutput),
                           sessionReminder = reminder\<rparr>, w2))))"

text \<open>\<^verbatim>\<open>cleanupAllTrackedSessions\<close>: the processes it spawns, in order, and the state
  afterwards; a kill that fails is ignored.\<close>

definition cleanupAllTrackedSessions :: "string \<Rightarrow> world \<Rightarrow> (string \<times> string list) list \<times> world" where
  "cleanupAllTrackedSessions sid w =
     (let (state, w1) = getOrCreateState sid w;
          kills = map (\<lambda>sessionName. (''tmux'', [''kill-session'', ''-t'', sessionName]))
                    (tmuxSessions state);
          w2 = w1\<lparr>sessionStates := (sessionStates w1)(sid := None)\<rparr>
      in (kills, clearShellInteractSessionState sid w2))"


section \<open>Observations and sample inputs used by the theorems\<close>

text \<open>The names tracked for a conversation: those of its in-memory state, else those of
  its persisted document, else none.\<close>

definition trackedSessions :: "string \<Rightarrow> world \<Rightarrow> string list" where
  "trackedSessions sid w = tmuxSessions (fst (getOrCreateState sid w))"

text \<open>The resolved target name in the words of the specification: for a session
  creation the value of \<open>-s\<close>, else that of \<open>-t\<close>; for any other command the value of
  \<open>-t\<close>; cut at the first \<open>:\<close> or \<open>.\<close>.\<close>

definition truncateAtSeparator :: "string \<Rightarrow> string" where
  "truncateAtSeparator v = takeWhile (\<lambda>c. c \<noteq> CHR '':'' \<and> c \<noteq> CHR ''.'') v"

definition resolvedTarget :: "string list \<Rightarrow> string \<Rightarrow> string option" where
  "resolvedTarget toks subCommand =
     (if subCommand = ''new-session'' then
        (case findFlagValue toks ''-s'' of
           Some v \<Rightarrow> Some (truncateAtSeparator v)
         | None \<Rightarrow> map_option truncateAtSeparator (findFlagValue toks ''-t''))
      else map_option truncateAtSeparator (findFlagValue toks ''-t''))"

text \<open>A process that has just started: nothing in memory, no file and no directory on
  disk yet below the root.\<close>

definition emptyWorld :: world where
  "emptyWorld = \<lparr>sessionStates = Map.empty, currentSessionId = None, tmuxPath = None,
     files = Map.empty, dirs = {}, refused = {}, homeDir = ''/home/agent'',
     nowMs = 1700000000000\<rparr>"

text \<open>A process whose conversation \<open>s1\<close> tracks the given names in memory.\<close>

definition worldTracking :: "string list \<Rightarrow> world" where
  "worldTracking names = emptyWorld\<lparr>sessionStates :=
     [''s1'' \<mapsto> \<lparr>sessionID = ''s1'', tmuxSessions = names, updatedAt = 1699999999000\<rparr>]\<rparr>"

text \<open>The names in the document stored on disk for the state a conversation holds in
  memory.\<close>

definition persistedSessions :: "string \<Rightarrow> world \<Rightarrow> string list option" where
  "persistedSessions sid w =
     (case sessionStates w sid of
        None \<Rightarrow> None
      | Some st \<Rightarrow>
          (case files w (getSessionFilePath w (sessionID st)) of
             Some (JsonDoc d) \<Rightarrow> Some (ser_tmuxSessions d)
           | _ \<Rightarrow> None))"

text \<open>
  The storage directory is there or can be made: no regular file sits at it or above
  it, and no directory still to be made is refused. And a file can be written at a
  path: the path is no directory and is not refused.
\<close>

definition storageReady :: "world \<Rightarrow> bool" where
  "storageReady w =
     (\<not> hasNul (STORAGE_DIR w)
      \<and> list_all (\<lambda>q. files w q = None \<and> (isDir w q \<or> q \<notin> refused w))
            (pathPrefixes (STORAGE_DIR w)))"

definition fileWritable :: "world \<Rightarrow> path \<Rightarrow> bool" where
  "fileWritable w p = (p \<notin> dirs w \<and> p \<notin> refused w)"

section \<open>Numbers in messages\<close>

text \<open>A template literal renders an integer in decimal. This is so for the integers a
  \<^verbatim>\<open>number\<close> holds exactly and prints in full, those of magnitude below \<open>2^53\<close>; the
  counts and millisecond values of this code are of that kind, and larger values are not
  modelled.\<close>

definition digitChar :: "nat \<Rightarrow> char" where
  "digitChar d = char_of (48 + d)"

function showNat :: "nat \<Rightarrow> string" where
  "showNat n = (if n < 10 then [digitChar n] else showNat (n div 10) @ [digitChar (n mod 10)])"
  by pat_completeness auto
termination
  by (relation "measure (\<lambda>n. n)") auto

declare showNat.simps [simp del]

definition showInt :: "int \<Rightarrow> string" where
  "showInt i = (if i < 0 then ''-'' @ showNat (nat (- i)) else showNat (nat i))"

section \<open>Output stall detector\<close>

record OutputStallResult =
  isStalled :: bool
  sampleCount :: int
  unchangedCount :: nat
  lastOutput :: string
  confidence :: confidence
  detail :: string

record StallDetectorOptions =
  optSampleCount :: "int option"
  optSampleIntervalMs :: "int option"
  sessionId :: string

text \<open>
  What the detector does to the outside, in order: a capture of the pane of a session, a
  timer sleep of so many milliseconds (the suspending variant), or a spawned \<^verbatim>\<open>sleep\<close>
  process given that many milliseconds divided by 1000 as seconds (the blocking
  variant).
\<close>

datatype effect = CapturePane string | Sleep int | SpawnSleep int

text \<open>A finished capture process: its exit status (none when killed by a signal) and
  its standard output. The pane is the sequence of these, one per capture.\<close>

type_synonym spawnResult = "int option \<times> string"

definition capturePane :: "spawnResult \<Rightarrow> string" where
  "capturePane result = (if fst result \<noteq> Some 0 then [] else snd result)"

text \<open>The sampling loop \<^verbatim>\<open>for (let i = 0; i < sampleCount; i++)\<close>, the same in both
  variants but for the way they sleep.\<close>

function sampleLoop ::
    "(nat \<Rightarrow> spawnResult) \<Rightarrow> string \<Rightarrow> int \<Rightarrow> effect \<Rightarrow> int \<Rightarrow> string list \<times> effect list
       \<Rightarrow> string list \<times> effect list" where
  "sampleLoop pane sid count pause i acc =
     (if i < count
      then sampleLoop pane sid count pause (i + 1)
             (fst acc @ [capturePane (pane (length (fst acc)))],
              snd acc @ [CapturePane sid] @ (if i < count - 1 then [pause] else []))
      else acc)"
  by pat_completeness auto
termination
  by (relation "measure (\<lambda>(pane, sid, count, pause, i, acc). nat (count - i))") auto

declare sampleLoop.simps [simp del]

text \<open>The counting loop \<^verbatim>\<open>for (let i = 1; i < samples.length; i++)\<close>.\<close>

function countUnchanged :: "string list \<Rightarrow> nat \<Rightarrow> nat \<Rightarrow> nat" where
  "countUnchanged samples i unchanged =
     (if i < length samples
      then countUnchanged samples (Suc i)
             (if samples ! i = samples ! (i - 1) then Suc unchanged else unchanged)
      else unchanged)"
  by pat_completeness auto
termination
  by (relation "measure (\<lambda>(samples, i, unchanged). length samples - i)") auto

declare countUnchanged.simps [simp del]

text \<open>Everything after the sampling loop, the same text in both variants. The
  comparison with \<^verbatim>\<open>sampleCount / 2\<close> is a division of numbers, not of integers.\<close>

definition stallVerdict :: "int \<Rightarrow> int \<Rightarrow> string list \<Rightarrow> OutputStallResult" where
  "stallVerdict count intervalMs samples =
     (let unchanged = countUnchanged samples 1 0;
          stalled = (int unchanged = count - 1);
          lastOut = (if samples = [] then [] else last samples);
          conf = (if stalled \<and> count \<ge> 3 then High
                  else if real unchanged \<ge> real_of_int count / 2 then Medium
                  else Low);
          det = (if stalled
                 then ''Output stalled: '' @ showInt count @ '' samples over ''
                        @ showInt ((count - 1) * intervalMs) @ ''ms showed no change''
                 else ''Output active: '' @ showInt (count - int unchanged) @ '' of ''
                        @ showInt count @ '' samples showed changes'')
      in \<lparr>isStalled = stalled, sampleCount = count, unchangedCount = unchanged,
          lastOutput = lastOut, confidence = conf, detail = det\<rparr>)"

text \<open>\<^verbatim>\<open>detectOutputStall\<close>: a missing option takes its default in the destructuring.\<close>

definition detectOutputStall ::
    "StallDetectorOptions \<Rightarrow> (nat \<Rightarrow> spawnResult) \<Rightarrow> OutputStallResult \<times> effect list" where
  "detectOutputStall options pane =
     (let count = (case optSampleCount options of None \<Rightarrow> 3 | Some n \<Rightarrow> n);
          intervalMs = (case optSampleIntervalMs options of None \<Rightarrow> 500 | Some m \<Rightarrow> m);
          (samples, log) = sampleLoop pane (sessionId options) count (Sleep intervalMs) 0 ([], [])
      in (stallVerdict count intervalMs samples, log))"

text \<open>\<^verbatim>\<open>detectOutputStallSync\<close>: a missing argument takes its default parameter value.\<close>

definition detectOutputStallSync ::
    "string \<Rightarrow> int option \<Rightarrow> int option \<Rightarrow> (nat \<Rightarrow> spawnResult)
       \<Rightarrow> OutputStallResult \<times> effect list" where
  "detectOutputStallSync sid optCount optIntervalMs pane =
     (let count = (case optCount of None \<Rightarrow> 2 | Some n \<Rightarrow> n);
          intervalMs = (case optIntervalMs of None \<Rightarrow> 300 | Some m \<Rightarrow> m);
          (samples, log) = sampleLoop pane sid count (SpawnSleep intervalMs) 0 ([], [])
      in (stallVerdict count intervalMs samples, log))"

text \<open>The number of adjacent pairs of identical samples, in the words of the
  specification.\<close>

definition adjacentEqualPairs :: "string list \<Rightarrow> nat" where
  "adjacentEqualPairs xs = length (filter (\<lambda>(a, b). a = b) (zip xs (tl xs)))"

text \<open>The samples a detector run takes from a pane.\<close>

definition samplesTaken :: "(nat \<Rightarrow> spawnResult) \<Rightarrow> int \<Rightarrow> string list" where
  "samplesTaken pane count = map (\<lambda>k. capturePane (pane k)) [0..<nat count]"

text \<open>A pane whose captures succeed and show the given texts, one after the other.\<close>

definition paneShowing :: "string list \<Rightarrow> nat \<Rightarrow> spawnResult" where
  "paneShowing xs k = (if k < length xs then (Some 0, xs ! k) else (Some 1, []))"

definition isSleepEffect :: "effect \<Rightarrow> bool" where
  "isSleepEffect e = (case e of CapturePane _ \<Rightarrow> False | _ \<Rightarrow> True)"

section \<open>The keystroke-sending entry point \<^verbatim>\<open>executeTmuxCommand\<close>\<close>

definition DEFAULT_TIMEOUT_MS :: int where
  "DEFAULT_TIMEOUT_MS = 60000"

definition BLOCKED_TMUX_SUBCOMMANDS :: "string list" where
  "BLOCKED_TMUX_SUBCOMMANDS =
     [''capture-pane'', ''capturep'', ''save-buffer'', ''saveb'', ''show-buffer'', ''showb'',
      ''pipe-pane'', ''pipep'']"

text \<open>\<^verbatim>\<open>toLowerCase\<close> and \<^verbatim>\<open>trim\<close> on the ASCII range.\<close>

definition toLowerChar :: "char \<Rightarrow> char" where
  "toLowerChar c =
     (if 65 \<le> (of_char c :: nat) \<and> (of_char c :: nat) \<le> 90 then char_of ((of_char c :: nat) + 32)
      else c)"

definition toLowerCase :: "string \<Rightarrow> string" where
  "toLowerCase s = map toLowerChar s"

definition isWhite :: "char \<Rightarrow> bool" where
  "isWhite c = (c = space \<or> c = tab \<or> c = newline \<or> c = CHR 0x0B \<or> c = CHR 0x0C \<or> c = CHR 0x0D)"

definition trim :: "string \<Rightarrow> string" where
  "trim s = rev (dropWhile isWhite (rev (dropWhile isWhite s)))"

record ShellInteractResult =
  success :: bool
  outputText :: string

text \<open>
  What becomes of the child process once spawned: an \<^verbatim>\<open>exit\<close> event (whether the
  timer had fired first, the exit code if any, the collected standard output and
  standard error) or an \<^verbatim>\<open>error\<close> event with its message.
\<close>

datatype childOutcome = ExitEvent bool "int option" string string | ErrorEvent string

text \<open>
  \<^verbatim>\<open>executeTmuxCommand\<close>: the result it resolves to, the processes it spawned (program and
  arguments) and the state afterwards. When the hook raises inside the \<^verbatim>\<open>exit\<close> handler
  the promise is never resolved: that is the error outcome.
\<close>

definition executeTmuxCommand ::
    "string \<Rightarrow> childOutcome \<Rightarrow> world
       \<Rightarrow> ShellInteractResult outcome \<times> (string \<times> string list) list \<times> world" where
  "executeTmuxCommand tmuxCommand outcome w =
     (let path = (case tmuxPath w of None \<Rightarrow> ''tmux'' | Some p \<Rightarrow> p);
          parts = tokenizeCommand tmuxCommand
      in if parts = [] then (Inr \<lparr>success = False, outputText = ''Error: Empty tmux command''\<rparr>, [], w)
         else
           (let subcommand = toLowerCase (hd parts)
            in if subcommand \<in> set BLOCKED_TMUX_SUBCOMMANDS
               then (Inr \<lparr>success = False,
                      outputText = ''Error: '' @ [squote] @ hd parts @ [squote]
                        @ '' is blocked. Use shell_execute instead for capturing/printing terminal output.''\<rparr>,
                     [], w)
               else
                 (let fullCommand = path @ '' '' @ tmuxCommand;
                      spawned = [(''/bin/bash'', [''-c'', fullCommand])]
                  in case outcome of
                       ErrorEvent message \<Rightarrow>
                         (Inr \<lparr>success = False, outputText = ''Error: '' @ message\<rparr>, spawned, w)
                     | ExitEvent timedOut code out err \<Rightarrow>
                         if timedOut
                         then (Inr \<lparr>success = False,
                                outputText = ''Error: Timeout after '' @ showInt DEFAULT_TIMEOUT_MS
                                  @ ''ms''\<rparr>, spawned, w)
                         else if code \<noteq> Some 0
                         then (Inr \<lparr>success = False,
                                outputText = ''Error: '' @
                                  (if trim err \<noteq> [] then trim err
                                   else ''Command failed with exit code '' @
                                     (case code of None \<Rightarrow> ''null'' | Some c \<Rightarrow> showInt c))\<rparr>,
                               spawned, w)
                         else
                           (let out1 = (if out \<noteq> [] then out else ''(no output)'')
                            in if truthy (currentSessionId w)
                               then (case shellInteractHook (the (currentSessionId w))
                                            tmuxCommand out1 w of
                                       (Inl e, w') \<Rightarrow> (Inl e, spawned, w')
                                     | (Inr hookResult, w') \<Rightarrow>
                                         (Inr \<lparr>success = True, outputText = output hookResult\<rparr>,
                                          spawned, w'))
                               else (Inr \<lparr>success = True, outputText = out1\<rparr>, spawned, w)))))"

section \<open>Theorems: TTY decision table\<close>

lemma positive_signals_count:
  "length (filter indicatesInputWait (collectSignals v1 a v2 b c v4 d)) = positiveCount a b c d"
  by (simp add: collectSignals_def positiveCount_def)

text \<open>
  Claim C2. Whatever the four signals are (and whatever value texts accompany them), the
  verdict computed by the detector is the one the decision table gives, first match
  wins: stdin and (wchan or stack) is detected/high; stdin and (syscall or at least two
  positive signals) is detected/medium; at least one positive signal is detected/low;
  otherwise not detected/low.
\<close>

theorem tty_decision_table:
  "decideTtyWait (collectSignals v1 stdinMatch v2 wchanMatch stackMatch v4 syscallMatch)
       stdinMatch wchanMatch stackMatch syscallMatch
     = specTtyTable stdinMatch wchanMatch stackMatch syscallMatch"
  by (simp add: decideTtyWait_def specTtyTable_def positive_signals_count Let_def)

theorem tty_decision_table_witness:
  "decideTtyWait (collectSignals ''/dev/pts/3'' True ''n_tty_read'' True False ''0 0x0'' False)
       True True False False = (True, High)
   \<and> ttyVerdict True False False True = (True, Medium)
   \<and> ttyVerdict False False True False = (True, Low)
   \<and> ttyVerdict False False False False = (False, Low)"
  using tty_decision_table [of "''/dev/pts/3''" True "''n_tty_read''" True False "''0 0x0''" False]
    tty_decision_table [of "''unknown''" True "''unknown''" False False "''unknown''" True]
    tty_decision_table [of "''unknown''" False "''unknown''" False True "''unknown''" False]
    tty_decision_table [of "''unknown''" False "''unknown''" False False "''unknown''" False]
  by (simp add: ttyVerdict_def specTtyTable_def positiveCount_def Let_def)

text \<open>
  Claim C9. The verdict is monotonic: when the second vector of signals has every
  positive signal of the first, its confidence is at least as great, and it is detected
  whenever the first is.
\<close>

theorem tty_confidence_monotonic:
  assumes "s1 \<longrightarrow> s2" and "w1 \<longrightarrow> w2" and "k1 \<longrightarrow> k2" and "y1 \<longrightarrow> y2"
  shows "rank (snd (ttyVerdict s1 w1 k1 y1)) \<le> rank (snd (ttyVerdict s2 w2 k2 y2))
         \<and> (fst (ttyVerdict s1 w1 k1 y1) \<longrightarrow> fst (ttyVerdict s2 w2 k2 y2))"
proof -
  have v: "\<And>s w k y. ttyVerdict s w k y = specTtyTable s w k y"
    by (simp add: ttyVerdict_def decideTtyWait_def specTtyTable_def positive_signals_count Let_def)
  show ?thesis
    using assms unfolding v specTtyTable_def positiveCount_def
    by (cases s1; cases w1; cases k1; cases y1; cases s2; cases w2; cases k2; cases y2; simp)
qed

theorem tty_confidence_monotonic_witness:
  "rank (snd (ttyVerdict False True False False)) \<le> rank (snd (ttyVerdict True True False True))
   \<and> fst (ttyVerdict False True False False) \<and> fst (ttyVerdict True True False True)
   \<and> ttyVerdict False True False False = (True, Low)
   \<and> ttyVerdict True True False True = (True, High)"
  using tty_confidence_monotonic [of False True True True False False False True]
  by (simp add: ttyVerdict_def decideTtyWait_def collectSignals_def Let_def)

section \<open>Theorems: command tokenizer\<close>

























section \<open>Theorems: session registry\<close>

lemma set_setAdd: "set (setAdd s x) = insert x (set s)"
  by (auto simp add: setAdd_def)

lemma set_setDelete: "set (setDelete s x) = set s - {x}"
  by (auto simp add: setDelete_def)

lemma foldl_setAdd_set: "set (foldl setAdd acc xs) = set acc \<union> set xs"
  by (induction xs arbitrary: acc) (auto simp add: set_setAdd)

lemma foldl_setAdd_distinct:
  "distinct (acc @ xs) \<Longrightarrow> foldl setAdd acc xs = acc @ xs"
proof (induction xs arbitrary: acc)
  case Nil
  show ?case by simp
next
  case (Cons x xs)
  have "setAdd acc x = acc @ [x]" using Cons.prems by (simp add: setAdd_def)
  moreover have "foldl setAdd (acc @ [x]) xs = (acc @ [x]) @ xs"
    using Cons.prems by (intro Cons.IH) simp
  ultimately show ?case by simp
qed

lemma set_newSet: "set (newSet xs) = set xs"
  by (simp add: newSet_def foldl_setAdd_set)

lemma newSet_distinct: "distinct xs \<Longrightarrow> newSet xs = xs"
  using foldl_setAdd_distinct [of "[]" xs] by (simp add: newSet_def)

subsection \<open>Paths\<close>

lemma splitOn_no_sep: "sep \<notin> set s \<Longrightarrow> splitOn sep s = [s]"
  by (induction s) auto

lemma json_name_regular:
  "sid @ ''.json'' \<noteq> []" "sid @ ''.json'' \<noteq> ''.''" "sid @ ''.json'' \<noteq> ''..''"
proof -
  have l: "length (sid @ ''.json'') = length sid + 5" by simp
  show "sid @ ''.json'' \<noteq> []" by simp
  show "sid @ ''.json'' \<noteq> ''.''"
  proof
    assume "sid @ ''.json'' = ''.''"
    then have "length (sid @ ''.json'') = length ''.''" by (rule arg_cong)
    then show False unfolding l by simp
  qed
  show "sid @ ''.json'' \<noteq> ''..''"
  proof
    assume "sid @ ''.json'' = ''..''"
    then have "length (sid @ ''.json'') = length ''..''" by (rule arg_cong)
    then show False unfolding l by simp
  qed
qed

lemma file_path_in_storage:
  assumes "CHR ''/'' \<notin> set sid"
  shows "getSessionFilePath w sid = (fst (STORAGE_DIR w), snd (STORAGE_DIR w) @ [sid @ ''.json''])"
proof -
  have "CHR ''/'' \<notin> set (sid @ ''.json'')" using assms by simp
  then have "splitOn (CHR ''/'') (sid @ ''.json'') = [sid @ ''.json'']"
    by (rule splitOn_no_sep)
  then show ?thesis
    by (simp add: getSessionFilePath_def pathJoin_def normStep_def json_name_regular)
qed

lemma file_path_parent:
  assumes "CHR ''/'' \<notin> set sid"
  shows "parentPath (getSessionFilePath w sid) = STORAGE_DIR w"
    and "snd (getSessionFilePath w sid) \<noteq> []"
    and "getSessionFilePath w sid \<notin> set (pathPrefixes (STORAGE_DIR w))"
    and "hasNul (getSessionFilePath w sid) = (hasNul (STORAGE_DIR w) \<or> CHR 0x00 \<in> set sid)"
proof -
  note f = file_path_in_storage [OF assms, of w]
  show "parentPath (getSessionFilePath w sid) = STORAGE_DIR w"
    by (simp add: f parentPath_def)
  show "snd (getSessionFilePath w sid) \<noteq> []"
    by (simp add: f)
  have len: "\<And>acc ss x. x \<in> set (prefixesFrom acc ss) \<Longrightarrow> length x \<le> length acc + length ss"
  proof -
    fix acc ss and x :: "string list"
    show "x \<in> set (prefixesFrom acc ss) \<Longrightarrow> length x \<le> length acc + length ss"
      by (induction acc ss rule: prefixesFrom.induct) auto
  qed
  show "getSessionFilePath w sid \<notin> set (pathPrefixes (STORAGE_DIR w))"
  proof
    assume "getSessionFilePath w sid \<in> set (pathPrefixes (STORAGE_DIR w))"
    then have "snd (STORAGE_DIR w) @ [sid @ ''.json''] \<in> set (prefixesFrom [] (snd (STORAGE_DIR w)))"
      by (auto simp add: f pathPrefixes_def)
    from len [OF this] show False by simp
  qed
  show "hasNul (getSessionFilePath w sid) = (hasNul (STORAGE_DIR w) \<or> CHR 0x00 \<in> set sid)"
    by (auto simp add: f hasNul_def list_ex_iff)
qed

subsection \<open>Directories and files\<close>

lemma mkdirs_frame_conj:
  "mkdirs qs w = (r, w') \<Longrightarrow>
     files w' = files w \<and> refused w' = refused w \<and> sessionStates w' = sessionStates w
     \<and> homeDir w' = homeDir w \<and> nowMs w' = nowMs w \<and> dirs w \<subseteq> dirs w'
     \<and> dirs w' \<subseteq> dirs w \<union> set qs"
proof (induction qs arbitrary: w)
  case Nil
  then show ?case by simp
next
  case (Cons q qs)
  show ?case
  proof (cases "files w q \<noteq> None \<or> (\<not> isDir w q \<and> q \<in> refused w)")
    case True
    then have "w' = w" using Cons.prems by (simp split: if_splits)
    then show ?thesis by auto
  next
    case False
    show ?thesis
    proof (cases "isDir w q")
      case True
      then have "mkdirs qs w = (r, w')" using Cons.prems False by simp
      from Cons.IH [OF this] show ?thesis by auto
    next
      case nd: False
      then have "mkdirs qs (w\<lparr>dirs := insert q (dirs w)\<rparr>) = (r, w')"
        using Cons.prems False by simp
      from Cons.IH [OF this] show ?thesis by auto
    qed
  qed
qed

lemma mkdirs_frame:
  assumes "mkdirs qs w = (r, w')"
  shows "files w' = files w" and "refused w' = refused w" and "sessionStates w' = sessionStates w"
    and "homeDir w' = homeDir w" and "nowMs w' = nowMs w" and "dirs w \<subseteq> dirs w'"
    and "dirs w' \<subseteq> dirs w \<union> set qs"
  using mkdirs_frame_conj [OF assms] by simp_all

lemma isDir_mono: "dirs w \<subseteq> dirs w' \<Longrightarrow> isDir w q \<Longrightarrow> isDir w' q"
  by (auto simp add: isDir_def)

lemma mkdirs_ok:
  assumes "list_all (\<lambda>q. files w q = None \<and> (isDir w q \<or> q \<notin> refused w)) qs"
  shows "\<exists>w'. mkdirs qs w = (Inr (), w') \<and> (\<forall>q\<in>set qs. isDir w' q)"
  using assms
proof (induction qs arbitrary: w)
  case Nil
  show ?case by simp
next
  case (Cons q qs)
  let ?w1 = "if isDir w q then w else w\<lparr>dirs := insert q (dirs w)\<rparr>"
  have step: "mkdirs (q # qs) w = mkdirs qs ?w1"
    using Cons.prems by auto
  have "list_all (\<lambda>q. files ?w1 q = None \<and> (isDir ?w1 q \<or> q \<notin> refused ?w1)) qs"
    using Cons.prems by (auto simp add: list_all_iff isDir_def)
  from Cons.IH [OF this] obtain w' where w': "mkdirs qs ?w1 = (Inr (), w')"
    and d: "\<forall>x\<in>set qs. isDir w' x"
    by blast
  have "isDir ?w1 q" by (simp add: isDir_def)
  moreover have "dirs ?w1 \<subseteq> dirs w'" using mkdirs_frame(6) [OF w'] .
  ultimately have "isDir w' q" by (rule isDir_mono [rotated])
  with w' d step show ?case by simp
qed

lemma prefixesFrom_last:
  "ss \<noteq> [] \<Longrightarrow> acc @ ss \<in> set (prefixesFrom acc ss)"
proof (induction acc ss rule: prefixesFrom.induct)
  case (1 acc)
  then show ?case by simp
next
  case (2 acc s ss)
  then show ?case by (cases ss) auto
qed

lemma path_in_prefixes: "snd p \<noteq> [] \<Longrightarrow> p \<in> set (pathPrefixes p)"
  using prefixesFrom_last [of "snd p" "[]"]
  by (cases p) (auto simp add: pathPrefixes_def)

lemma STORAGE_DIR_homeDir: "homeDir w' = homeDir w \<Longrightarrow> STORAGE_DIR w' = STORAGE_DIR w"
  by (simp add: STORAGE_DIR_def)

lemma file_path_homeDir:
  "homeDir w' = homeDir w \<Longrightarrow> getSessionFilePath w' sid = getSessionFilePath w sid"
  by (simp add: getSessionFilePath_def STORAGE_DIR_def)

text \<open>\<^verbatim>\<open>path.join\<close> normalises: the ids \<open>./s1\<close> and \<open>s1\<close> name one file.\<close>

lemma same_file: "getSessionFilePath w ''./s1'' = getSessionFilePath w ''s1''"
  by (simp add: getSessionFilePath_def pathJoin_def normStep_def)

lemma ensure_frame:
  assumes "ensureStorageDir w = (r, w1)"
  shows "files w1 = files w" and "refused w1 = refused w" and "sessionStates w1 = sessionStates w"
    and "homeDir w1 = homeDir w" and "nowMs w1 = nowMs w" and "dirs w \<subseteq> dirs w1"
    and "dirs w1 \<subseteq> dirs w \<union> set (pathPrefixes (STORAGE_DIR w))"
proof -
  consider "w1 = w" | "mkdirs (pathPrefixes (STORAGE_DIR w)) w = (r, w1)"
    using assms by (auto simp add: ensureStorageDir_def mkdirSync_def split: if_splits)
  then show "files w1 = files w" and "refused w1 = refused w"
    and "sessionStates w1 = sessionStates w"
    and "homeDir w1 = homeDir w" and "nowMs w1 = nowMs w" and "dirs w \<subseteq> dirs w1"
    and "dirs w1 \<subseteq> dirs w \<union> set (pathPrefixes (STORAGE_DIR w))"
    by (auto dest: mkdirs_frame)
qed

lemma ensure_ok:
  assumes "storageReady w"
  shows "\<exists>w1. ensureStorageDir w = (Inr (), w1) \<and> isDir w1 (STORAGE_DIR w)"
proof (cases "existsSync w (STORAGE_DIR w)")
  case True
  have "files w (STORAGE_DIR w) = None \<or> snd (STORAGE_DIR w) = []"
    using assms path_in_prefixes [of "STORAGE_DIR w"]
    by (auto simp add: storageReady_def list_all_iff)
  then have "isDir w (STORAGE_DIR w)"
    using True by (auto simp add: existsSync_def isDir_def)
  with True show ?thesis by (simp add: ensureStorageDir_def)
next
  case False
  obtain w1 where m: "mkdirs (pathPrefixes (STORAGE_DIR w)) w = (Inr (), w1)"
    and d: "\<forall>q\<in>set (pathPrefixes (STORAGE_DIR w)). isDir w1 q"
    using mkdirs_ok [of w "pathPrefixes (STORAGE_DIR w)"] assms
    by (auto simp add: storageReady_def)
  have "isDir w1 (STORAGE_DIR w)"
    using d path_in_prefixes [of "STORAGE_DIR w"] by (cases "snd (STORAGE_DIR w) = []") (auto simp add: isDir_def)
  with m False assms show ?thesis
    by (simp add: ensureStorageDir_def mkdirSync_def storageReady_def)
qed

lemma save_frame:
  assumes "saveShellInteractSessionState st w = (r, w')"
  shows "sessionStates w' = sessionStates w" and "homeDir w' = homeDir w" and "nowMs w' = nowMs w"
proof -
  obtain r1 w1 where e: "ensureStorageDir w = (r1, w1)" by fastforce
  note f = ensure_frame [OF e]
  have "sessionStates w' = sessionStates w1 \<and> homeDir w' = homeDir w1 \<and> nowMs w' = nowMs w1"
    using assms e
    by (cases r1) (auto simp add: saveShellInteractSessionState_def writeFileSync_def Let_def split: if_splits)
  with f show "sessionStates w' = sessionStates w" and "homeDir w' = homeDir w" and "nowMs w' = nowMs w"
    by simp_all
qed

lemma save_returned:
  assumes "saveShellInteractSessionState st w = (Inr (), w')"
  shows "files w' (getSessionFilePath w' (sessionID st))
           = Some (JsonDoc \<lparr>ser_sessionID = sessionID st, ser_tmuxSessions = tmuxSessions st,
                             ser_updatedAt = updatedAt st\<rparr>)"
    and "\<not> hasNul (getSessionFilePath w' (sessionID st))"
proof -
  obtain r1 w1 where e: "ensureStorageDir w = (r1, w1)" by fastforce
  have h: "homeDir w' = homeDir w1"
    using assms e
    by (cases r1) (auto simp add: saveShellInteractSessionState_def writeFileSync_def Let_def split: if_splits)
  show "files w' (getSessionFilePath w' (sessionID st))
           = Some (JsonDoc \<lparr>ser_sessionID = sessionID st, ser_tmuxSessions = tmuxSessions st,
                             ser_updatedAt = updatedAt st\<rparr>)"
    and "\<not> hasNul (getSessionFilePath w' (sessionID st))"
    using assms e unfolding file_path_homeDir [OF h]
    by (cases r1; auto simp add: saveShellInteractSessionState_def writeFileSync_def Let_def
        JSON_stringify_def split: if_splits)+
qed

lemma load_returned:
  assumes "files w p = Some (JsonDoc d)" and "\<not> hasNul p" and "p = getSessionFilePath w sid"
  shows "loadShellInteractSessionState sid w
           = Some \<lparr>sessionID = ser_sessionID d, tmuxSessions = newSet (ser_tmuxSessions d),
                   updatedAt = ser_updatedAt d\<rparr>"
  using assms
  by (simp add: loadShellInteractSessionState_def Let_def existsSync_def readFileSync_def
      JSON_parse_def)

lemma save_ok:
  assumes "CHR ''/'' \<notin> set (sessionID st)" and "CHR 0x00 \<notin> set (sessionID st)"
    and "storageReady w" and "fileWritable w (getSessionFilePath w (sessionID st))"
  shows "\<exists>w'. saveShellInteractSessionState st w = (Inr (), w')"
proof -
  obtain w1 where e: "ensureStorageDir w = (Inr (), w1)" and d: "isDir w1 (STORAGE_DIR w)"
    using ensure_ok [OF assms(3)] by blast
  note f = ensure_frame [OF e]
  let ?p = "getSessionFilePath w (sessionID st)"
  note pp = file_path_parent [OF assms(1), of w]
  have p1: "getSessionFilePath w1 (sessionID st) = ?p"
    by (rule file_path_homeDir [OF f(4)])
  have n: "\<not> hasNul ?p"
    using assms(2,3) by (simp add: pp(4) storageReady_def)
  have nd: "?p \<notin> dirs w1"
    using f(7) assms(4) pp(3) by (auto simp add: fileWritable_def)
  have nr: "?p \<notin> refused w1"
    using f(2) assms(4) by (simp add: fileWritable_def)
  show ?thesis
    using e d n nd nr pp(1,2)
    by (simp add: saveShellInteractSessionState_def writeFileSync_def Let_def p1)
qed


subsection \<open>The hook\<close>

lemma tokStep_tokens_nonempty: "[] \<notin> set (tokens st) \<Longrightarrow> [] \<notin> set (tokens (tokStep st c))"
  by (simp add: tokStep_def)

lemma tokRun_tokens_nonempty: "[] \<notin> set (tokens st) \<Longrightarrow> [] \<notin> set (tokens (tokRun st u))"
proof (induction u arbitrary: st)
  case Nil
  then show ?case by (simp add: tokRun_def)
next
  case (Cons c u)
  have "[] \<notin> set (tokens (tokRun (tokStep st c) u))"
    using Cons.prems by (intro Cons.IH tokStep_tokens_nonempty)
  then show ?case by (simp add: tokRun_def)
qed

lemma tokens_nonempty: "[] \<notin> set (tokenizeCommand cmd)"
proof -
  have "[] \<notin> set (tokens (tokRun tokInit cmd))"
    by (rule tokRun_tokens_nonempty) (simp add: tokInit_def)
  then show ?thesis by (simp add: tokenizeCommand_def tokFinish_def)
qed

lemma findFlagValue_mem: "findFlagValue toks flag = Some v \<Longrightarrow> v \<in> set toks"
  by (induction toks flag rule: findFlagValue.induct) (auto split: if_splits)

lemma takeWhile_twice: "takeWhile P (takeWhile Q xs) = takeWhile (\<lambda>x. Q x \<and> P x) xs"
  by (induction xs) auto

lemma normalize_truncate: "normalizeSessionName v = truncateAtSeparator v"
  by (simp add: normalizeSessionName_def truncateAtSeparator_def takeWhile_twice)

lemma truthy_flag:
  assumes "[] \<notin> set toks"
  shows "truthy (findFlagValue toks flag) = (findFlagValue toks flag \<noteq> None)"
proof (cases "findFlagValue toks flag")
  case None
  then show ?thesis by (simp add: truthy_def)
next
  case (Some v)
  then have "v \<in> set toks" by (rule findFlagValue_mem)
  with assms have "v \<noteq> []" by auto
  with Some show ?thesis by (simp add: truthy_def)
qed

lemma extract_resolved:
  assumes "[] \<notin> set toks"
  shows "extractSessionNameFromTokens toks sub = resolvedTarget toks sub"
proof -
  have "extractSessionNameFromTokens toks sub =
     (if sub = ''new-session'' then
        (if findFlagValue toks ''-s'' \<noteq> None
           then map_option truncateAtSeparator (findFlagValue toks ''-s'')
         else if findFlagValue toks ''-t'' \<noteq> None
           then map_option truncateAtSeparator (findFlagValue toks ''-t'') else None)
      else (if findFlagValue toks ''-t'' \<noteq> None
              then map_option truncateAtSeparator (findFlagValue toks ''-t'') else None))"
    unfolding extractSessionNameFromTokens_def Let_def truthy_flag [OF assms]
    by (simp add: normalize_truncate cong: map_option_cong)
  also have "\<dots> = resolvedTarget toks sub"
    by (simp add: resolvedTarget_def split: option.splits)
  finally show ?thesis .
qed

lemma tracked_in_memory:
  "sessionStates w sid = Some st \<Longrightarrow> trackedSessions sid w = tmuxSessions st"
  by (simp add: trackedSessions_def getOrCreateState_def)

lemma getOrCreate_result:
  assumes "getOrCreateState sid w = (state, w1)"
  shows "sessionStates w1 sid = Some state" and "trackedSessions sid w = tmuxSessions state"
    and "nowMs w1 = nowMs w" and "homeDir w1 = homeDir w" and "files w1 = files w"
    and "dirs w1 = dirs w" and "refused w1 = refused w"
  using assms
  by (auto simp add: getOrCreateState_def trackedSessions_def Let_def split: option.splits)

lemma save_sessionStates: "sessionStates (snd (saveShellInteractSessionState st w)) = sessionStates w"
  using save_frame(1) [of st w "fst (saveShellInteractSessionState st w)"
      "snd (saveShellInteractSessionState st w)"]
  by simp

text \<open>The hook unfolded: a command that changes the set, and one that does not.\<close>

lemma hook_mutating:
  assumes ne: "\<not> startsWith toolOutput ''Error:''"
    and g: "getOrCreateState sid w = (state, w1)"
    and sub: "sub = findSubcommand (tokenizeCommand cmd)"
    and nm: "nm = resolvedTarget (tokenizeCommand cmd) sub"
    and m: "(sub = ''new-session'' \<and> isCeaSession nm \<and> names = setAdd (tmuxSessions state) (the nm))
          \<or> (sub = ''kill-session'' \<and> isCeaSession nm \<and> names = setDelete (tmuxSessions state) (the nm))
          \<or> (sub = ''kill-server'' \<and> names = [])"
    and st: "st = state\<lparr>tmuxSessions := names, updatedAt := nowMs w1\<rparr>"
    and sv: "sv = saveShellInteractSessionState st (w1\<lparr>sessionStates := (sessionStates w1)(sid \<mapsto> st)\<rparr>)"
  shows "shellInteractHook sid cmd toolOutput w =
     (case fst sv of
        Inl e \<Rightarrow> (Inl e, snd sv)
      | Inr u \<Rightarrow>
          (Inr \<lparr>output = toolOutput @ buildSessionReminderMessage names
                            (if sub = ''new-session'' then nm else None),
                 sessionReminder = Some (buildSessionReminderMessage names
                            (if sub = ''new-session'' then nm else None))\<rparr>, snd sv))"
proof -
  have e: "extractSessionNameFromTokens (tokenizeCommand cmd) sub = nm"
    unfolding nm by (rule extract_resolved [OF tokens_nonempty])
  have t: "\<And>x. truthy (Some x) = (x \<noteq> [])" by (simp add: truthy_def)
  from m show ?thesis
  proof (elim disjE conjE)
    assume "sub = ''new-session''" "isCeaSession nm" "names = setAdd (tmuxSessions state) (the nm)"
    then show ?thesis
      using ne e
      by (simp add: shellInteractHook_def g [unfolded sub] Let_def split_beta sub [symmetric] st sv t
          split: sum.splits)
  next
    assume "sub = ''kill-session''" "isCeaSession nm" "names = setDelete (tmuxSessions state) (the nm)"
    then show ?thesis
      using ne e
      by (simp add: shellInteractHook_def g Let_def split_beta sub [symmetric] st sv t
          split: sum.splits)
  next
    assume "sub = ''kill-server''" "names = []"
    then show ?thesis
      using ne e
      by (simp add: shellInteractHook_def g Let_def split_beta sub [symmetric] st sv t
          buildSessionReminderMessage_def split: sum.splits)
  qed
qed

lemma hook_not_mutating:
  assumes ne: "\<not> startsWith toolOutput ''Error:''"
    and g: "getOrCreateState sid w = (state, w1)"
    and sub: "sub = findSubcommand (tokenizeCommand cmd)"
    and nm: "nm = resolvedTarget (tokenizeCommand cmd) sub"
    and m: "\<not> (sub = ''new-session'' \<and> isCeaSession nm)"
       "\<not> (sub = ''kill-session'' \<and> isCeaSession nm)" "sub \<noteq> ''kill-server''"
  shows "shellInteractHook sid cmd toolOutput w =
     (if sub = ''new-session'' \<or> sub = ''kill-session''
      then (Inr \<lparr>output = toolOutput @ buildSessionReminderMessage (tmuxSessions state) None,
                  sessionReminder = Some (buildSessionReminderMessage (tmuxSessions state) None)\<rparr>, w1)
      else (Inr \<lparr>output = toolOutput, sessionReminder = None\<rparr>, w1))"
proof -
  have e: "extractSessionNameFromTokens (tokenizeCommand cmd) sub = nm"
    unfolding nm by (rule extract_resolved [OF tokens_nonempty])
  have t: "\<And>x. truthy (Some x) = (x \<noteq> [])" "truthy None = False" by (simp_all add: truthy_def)
  show ?thesis
    using ne e m
    by (auto simp add: shellInteractHook_def g Let_def split_beta sub [symmetric] t)
qed


text \<open>The state after the hook, whether the save returned or raised.\<close>

lemma hook_world:
  assumes ne: "\<not> startsWith toolOutput ''Error:''"
    and g: "getOrCreateState sid w = (state, w1)"
  shows "trackedSessions sid (snd (shellInteractHook sid cmd toolOutput w)) =
     (let sub = findSubcommand (tokenizeCommand cmd);
          nm = resolvedTarget (tokenizeCommand cmd) sub
      in if sub = ''new-session'' \<and> isCeaSession nm then setAdd (tmuxSessions state) (the nm)
         else if sub = ''kill-session'' \<and> isCeaSession nm then setDelete (tmuxSessions state) (the nm)
         else if sub = ''kill-server'' then []
         else tmuxSessions state)"
proof -
  define sub where "sub = findSubcommand (tokenizeCommand cmd)"
  define nm where "nm = resolvedTarget (tokenizeCommand cmd) sub"
  define names where "names =
     (if sub = ''new-session'' \<and> isCeaSession nm then setAdd (tmuxSessions state) (the nm)
      else if sub = ''kill-session'' \<and> isCeaSession nm then setDelete (tmuxSessions state) (the nm)
      else [])"
  define st where "st = state\<lparr>tmuxSessions := names, updatedAt := nowMs w1\<rparr>"
  define sv where "sv = saveShellInteractSessionState st
                          (w1\<lparr>sessionStates := (sessionStates w1)(sid \<mapsto> st)\<rparr>)"
  have goal: "trackedSessions sid (snd (shellInteractHook sid cmd toolOutput w)) =
      (if sub = ''new-session'' \<and> isCeaSession nm then setAdd (tmuxSessions state) (the nm)
       else if sub = ''kill-session'' \<and> isCeaSession nm then setDelete (tmuxSessions state) (the nm)
       else if sub = ''kill-server'' then []
       else tmuxSessions state)"
  proof (cases "(sub = ''new-session'' \<and> isCeaSession nm) \<or> (sub = ''kill-session'' \<and> isCeaSession nm)
                 \<or> sub = ''kill-server''")
    case True
    then have m: "(sub = ''new-session'' \<and> isCeaSession nm \<and> names = setAdd (tmuxSessions state) (the nm))
          \<or> (sub = ''kill-session'' \<and> isCeaSession nm \<and> names = setDelete (tmuxSessions state) (the nm))
          \<or> (sub = ''kill-server'' \<and> names = [])"
      by (auto simp add: names_def)
    have "snd (shellInteractHook sid cmd toolOutput w) = snd sv"
      unfolding hook_mutating [OF ne g sub_def nm_def m st_def sv_def]
      by (simp split: sum.splits)
    moreover have "sessionStates (snd sv) sid = Some st"
      unfolding sv_def by (simp add: save_sessionStates)
    ultimately have "trackedSessions sid (snd (shellInteractHook sid cmd toolOutput w)) = names"
      by (simp add: tracked_in_memory st_def)
    with m show ?thesis by auto
  next
    case False
    then have m: "\<not> (sub = ''new-session'' \<and> isCeaSession nm)"
       "\<not> (sub = ''kill-session'' \<and> isCeaSession nm)" "sub \<noteq> ''kill-server''"
      by auto
    have "snd (shellInteractHook sid cmd toolOutput w) = w1"
      unfolding hook_not_mutating [OF ne g sub_def nm_def m] by simp
    then show ?thesis
      using m getOrCreate_result(1) [OF g] by (auto simp add: tracked_in_memory)
  qed
  from goal show ?thesis unfolding Let_def nm_def sub_def .
qed

lemma hook_tracked_set:
  assumes "\<not> startsWith toolOutput ''Error:''"
  shows "set (trackedSessions sid (snd (shellInteractHook sid cmd toolOutput w))) =
     (let sub = findSubcommand (tokenizeCommand cmd);
          nm = resolvedTarget (tokenizeCommand cmd) sub;
          before = set (trackedSessions sid w)
      in if sub = ''new-session'' \<and> isCeaSession nm then insert (the nm) before
         else if sub = ''kill-session'' \<and> isCeaSession nm then before - {the nm}
         else if sub = ''kill-server'' then {}
         else before)"
proof -
  obtain state w1 where g: "getOrCreateState sid w = (state, w1)"
    by fastforce
  show ?thesis
    unfolding hook_world [OF assms g] getOrCreate_result(2) [OF g]
    by (auto simp add: Let_def set_setAdd set_setDelete)
qed

lemmas fs_eval = existsSync_def isDir_def mkdirSync_def pathPrefixes_def pathOf_def pathJoin_def
  normStep_def hasNul_def writeFileSync_def readFileSync_def unlinkSync_def parentPath_def
  JSON_stringify_def JSON_parse_def ensureStorageDir_def getSessionFilePath_def STORAGE_DIR_def
  loadShellInteractSessionState_def saveShellInteractSessionState_def

lemmas hook_eval = shellInteractHook_def tokenizeCommand_def tokRun_def tokFinish_def tokStep_def
  tokInit_def char_names startsWith_def getOrCreateState_def fs_eval
  extractSessionNameFromTokens_def truthy_def normalizeSessionName_def isCeaSession_def
  CEA_SESSION_PREFIX_def setAdd_def setDelete_def buildSessionReminderMessage_def
  globalOptionsWithArgs_def emptyWorld_def worldTracking_def trackedSessions_def Let_def

lemma storageReady_frame:
  assumes "homeDir w' = homeDir w" and "files w' = files w" and "dirs w' = dirs w"
    and "refused w' = refused w"
  shows "storageReady w' = storageReady w" and "fileWritable w' p = fileWritable w p"
  using assms
  by (simp_all add: storageReady_def fileWritable_def STORAGE_DIR_def isDir_def)

lemma join_concat: "join (n # ns) sep = n @ concat (map ((@) sep) ns)"
  by (induction ns arbitrary: n) simp_all

lemma join_lists: "n \<in> set names \<Longrightarrow> \<exists>pre post. join names sep = pre @ n @ post"
proof (induction names sep rule: join.induct)
  case (1 sep)
  then show ?case by simp
next
  case (2 x sep)
  then have "join [x] sep = [] @ n @ []" by simp
  then show ?case by blast
next
  case (3 x y ys sep)
  show ?case
  proof (cases "n = x")
    case True
    then have "join (x # y # ys) sep = [] @ n @ (sep @ join (y # ys) sep)" by simp
    then show ?thesis by blast
  next
    case False
    then have "n \<in> set (y # ys)" using "3.prems" by simp
    from "3.IH" [OF this] obtain pre post where "join (y # ys) sep = pre @ n @ post" by blast
    then have "join (x # y # ys) sep = (x @ sep @ pre) @ n @ post" by simp
    then show ?thesis by blast
  qed
qed

lemma cea_nonempty: "isCeaSession nm \<Longrightarrow> truthy nm"
  by (cases nm) (auto simp add: isCeaSession_def truthy_def startsWith_def CEA_SESSION_PREFIX_def)

lemma truthy_None: "truthy None = False"
  by (simp add: truthy_def)

text \<open>The text the template builds.\<close>

lemma reminder_text:
  "buildSessionReminderMessage names nc =
     (if names = [] then []
      else [newline, newline] @ ''[System Reminder] Active cea-* tmux sessions: ''
             @ hd names @ concat (map ((@) '', '') (tl names))
             @ (if truthy nc
                then [newline] @ ''[Action Required] Background process started in ''
                       @ [squote] @ the nc @ [squote] @ ''. Before reporting completion:''
                       @ [newline] @ ''  1. Wait: shell_execute sleep 2-5''
                       @ [newline] @ ''  2. Verify output: shell_execute tmux capture-pane -t ''
                       @ the nc @ '' -p''
                       @ [newline]
                       @ ''  3. For servers: test the endpoint (e.g., curl localhost:PORT)''
                else []))"
proof (cases names)
  case Nil
  then show ?thesis by (simp add: buildSessionReminderMessage_def)
next
  case (Cons n ns)
  have j: "join names '', '' = hd names @ concat (map ((@) '', '') (tl names))"
    unfolding Cons by (simp only: join_concat list.sel)
  have ne: "names \<noteq> []" using Cons by simp
  show ?thesis
    unfolding buildSessionReminderMessage_def Let_def j using ne by simp
qed

lemma reminder_lists:
  assumes "n \<in> set names"
  shows "\<exists>pre post. buildSessionReminderMessage names nc = pre @ n @ post"
proof -
  obtain pre post where j: "join names '', '' = pre @ n @ post"
    using join_lists [OF assms] by blast
  have ne: "names \<noteq> []" using assms by auto
  show ?thesis
  proof (cases "truthy nc")
    case True
    have "buildSessionReminderMessage names nc
        = ([newline, newline] @ ''[System Reminder] Active cea-* tmux sessions: '' @ pre) @ n
          @ (post @ [newline] @ ''[Action Required] Background process started in ''
                @ [squote] @ the nc @ [squote] @ ''. Before reporting completion:''
                @ [newline] @ ''  1. Wait: shell_execute sleep 2-5''
                @ [newline] @ ''  2. Verify output: shell_execute tmux capture-pane -t ''
                @ the nc @ '' -p''
                @ [newline] @ ''  3. For servers: test the endpoint (e.g., curl localhost:PORT)'')"
      using ne True by (simp add: buildSessionReminderMessage_def Let_def j)
    then show ?thesis by blast
  next
    case False
    have "buildSessionReminderMessage names nc
        = ([newline, newline] @ ''[System Reminder] Active cea-* tmux sessions: '' @ pre) @ n @ post"
      using ne False by (simp add: buildSessionReminderMessage_def Let_def j)
    then show ?thesis by blast
  qed
qed

text \<open>What the hook returns when it returns, and when it does.\<close>

lemma hook_returned:
  assumes ne: "\<not> startsWith toolOutput ''Error:''"
    and h: "shellInteractHook sid cmd toolOutput w = (Inr r, w')"
    and sub: "sub = findSubcommand (tokenizeCommand cmd)"
    and nm: "nm = resolvedTarget (tokenizeCommand cmd) sub"
  shows "r = (if sub = ''new-session'' \<or> sub = ''kill-session'' \<or> sub = ''kill-server''
              then \<lparr>output = toolOutput @ buildSessionReminderMessage (trackedSessions sid w')
                                 (if sub = ''new-session'' \<and> isCeaSession nm then nm else None),
                     sessionReminder = Some (buildSessionReminderMessage (trackedSessions sid w')
                                 (if sub = ''new-session'' \<and> isCeaSession nm then nm else None))\<rparr>
              else \<lparr>output = toolOutput, sessionReminder = None\<rparr>)"
    and "(sub = ''new-session'' \<and> isCeaSession nm) \<or> (sub = ''kill-session'' \<and> isCeaSession nm)
           \<or> sub = ''kill-server''
         \<Longrightarrow> persistedSessions sid w' = Some (trackedSessions sid w')"
proof -
  obtain state w1 where g: "getOrCreateState sid w = (state, w1)"
    by fastforce
  define names where "names =
     (if sub = ''new-session'' \<and> isCeaSession nm then setAdd (tmuxSessions state) (the nm)
      else if sub = ''kill-session'' \<and> isCeaSession nm then setDelete (tmuxSessions state) (the nm)
      else [])"
  define st where "st = state\<lparr>tmuxSessions := names, updatedAt := nowMs w1\<rparr>"
  define wm where "wm = w1\<lparr>sessionStates := (sessionStates w1)(sid \<mapsto> st)\<rparr>"
  define sv where "sv = saveShellInteractSessionState st wm"
  have both: "r = (if sub = ''new-session'' \<or> sub = ''kill-session'' \<or> sub = ''kill-server''
              then \<lparr>output = toolOutput @ buildSessionReminderMessage (trackedSessions sid w')
                                 (if sub = ''new-session'' \<and> isCeaSession nm then nm else None),
                     sessionReminder = Some (buildSessionReminderMessage (trackedSessions sid w')
                                 (if sub = ''new-session'' \<and> isCeaSession nm then nm else None))\<rparr>
              else \<lparr>output = toolOutput, sessionReminder = None\<rparr>)
     \<and> ((sub = ''new-session'' \<and> isCeaSession nm) \<or> (sub = ''kill-session'' \<and> isCeaSession nm)
           \<or> sub = ''kill-server''
         \<longrightarrow> persistedSessions sid w' = Some (trackedSessions sid w'))"
  proof (cases "(sub = ''new-session'' \<and> isCeaSession nm) \<or> (sub = ''kill-session'' \<and> isCeaSession nm)
                 \<or> sub = ''kill-server''")
    case True
    then have m: "(sub = ''new-session'' \<and> isCeaSession nm \<and> names = setAdd (tmuxSessions state) (the nm))
          \<or> (sub = ''kill-session'' \<and> isCeaSession nm \<and> names = setDelete (tmuxSessions state) (the nm))
          \<or> (sub = ''kill-server'' \<and> names = [])"
      by (auto simp add: names_def)
    note hm = hook_mutating [OF ne g sub nm m st_def sv_def [unfolded wm_def]]
    have sv: "sv = (Inr (), w')"
      and r: "r = \<lparr>output = toolOutput @ buildSessionReminderMessage names
                            (if sub = ''new-session'' then nm else None),
                 sessionReminder = Some (buildSessionReminderMessage names
                            (if sub = ''new-session'' then nm else None))\<rparr>"
      using h unfolding hm by (cases sv; cases "fst sv"; simp)+
    have mem: "sessionStates w' sid = Some st"
      using save_frame(1) [OF sv [unfolded sv_def]] by (simp add: wm_def)
    then have tr: "trackedSessions sid w' = names"
      by (simp add: tracked_in_memory st_def)
    have "files w' (getSessionFilePath w' (sessionID st))
           = Some (JsonDoc \<lparr>ser_sessionID = sessionID st, ser_tmuxSessions = tmuxSessions st,
                             ser_updatedAt = updatedAt st\<rparr>)"
      by (rule save_returned(1) [OF sv [unfolded sv_def]])
    then have "persistedSessions sid w' = Some names"
      by (simp add: persistedSessions_def mem st_def)
    with r tr m True show ?thesis by auto
  next
    case False
    then have m: "\<not> (sub = ''new-session'' \<and> isCeaSession nm)"
       "\<not> (sub = ''kill-session'' \<and> isCeaSession nm)" "sub \<noteq> ''kill-server''"
      by auto
    note hn = hook_not_mutating [OF ne g sub nm m]
    have w': "w' = w1" using h unfolding hn by (simp split: if_splits)
    have "trackedSessions sid w' = tmuxSessions state"
      using getOrCreate_result(1) [OF g] by (simp add: w' tracked_in_memory)
    then show ?thesis
      using h m unfolding hn by (auto split: if_splits)
  qed
  from both show "r = (if sub = ''new-session'' \<or> sub = ''kill-session'' \<or> sub = ''kill-server''
              then \<lparr>output = toolOutput @ buildSessionReminderMessage (trackedSessions sid w')
                                 (if sub = ''new-session'' \<and> isCeaSession nm then nm else None),
                     sessionReminder = Some (buildSessionReminderMessage (trackedSessions sid w')
                                 (if sub = ''new-session'' \<and> isCeaSession nm then nm else None))\<rparr>
              else \<lparr>output = toolOutput, sessionReminder = None\<rparr>)"
    by blast
  from both show "(sub = ''new-session'' \<and> isCeaSession nm) \<or> (sub = ''kill-session'' \<and> isCeaSession nm)
           \<or> sub = ''kill-server''
         \<Longrightarrow> persistedSessions sid w' = Some (trackedSessions sid w')"
    by blast
qed

lemma hook_raised:
  assumes ne: "\<not> startsWith toolOutput ''Error:''"
    and h: "fst (shellInteractHook sid cmd toolOutput w) = Inl e"
    and sub: "sub = findSubcommand (tokenizeCommand cmd)"
    and nm: "nm = resolvedTarget (tokenizeCommand cmd) sub"
  shows "(sub = ''new-session'' \<and> isCeaSession nm) \<or> (sub = ''kill-session'' \<and> isCeaSession nm)
           \<or> sub = ''kill-server''"
proof (rule ccontr)
  assume "\<not> ?thesis"
  then have m: "\<not> (sub = ''new-session'' \<and> isCeaSession nm)"
       "\<not> (sub = ''kill-session'' \<and> isCeaSession nm)" "sub \<noteq> ''kill-server''"
    by auto
  obtain state w1 where g: "getOrCreateState sid w = (state, w1)"
    by fastforce
  show False
    using h unfolding hook_not_mutating [OF ne g sub nm m] by (simp split: if_splits)
qed

lemma hook_returns:
  assumes ne: "\<not> startsWith toolOutput ''Error:''"
    and i: "i = sessionID (fst (getOrCreateState sid w))"
    and ok: "storageReady w" "CHR ''/'' \<notin> set i" "CHR 0x00 \<notin> set i"
      "fileWritable w (getSessionFilePath w i)"
  shows "\<exists>r. fst (shellInteractHook sid cmd toolOutput w) = Inr r"
proof -
  obtain state w1 where g: "getOrCreateState sid w = (state, w1)"
    by fastforce
  define sub where "sub = findSubcommand (tokenizeCommand cmd)"
  define nm where "nm = resolvedTarget (tokenizeCommand cmd) sub"
  define names where "names =
     (if sub = ''new-session'' \<and> isCeaSession nm then setAdd (tmuxSessions state) (the nm)
      else if sub = ''kill-session'' \<and> isCeaSession nm then setDelete (tmuxSessions state) (the nm)
      else [])"
  define st where "st = state\<lparr>tmuxSessions := names, updatedAt := nowMs w1\<rparr>"
  define wm where "wm = w1\<lparr>sessionStates := (sessionStates w1)(sid \<mapsto> st)\<rparr>"
  define sv where "sv = saveShellInteractSessionState st wm"
  show ?thesis
  proof (cases "(sub = ''new-session'' \<and> isCeaSession nm) \<or> (sub = ''kill-session'' \<and> isCeaSession nm)
                 \<or> sub = ''kill-server''")
    case True
    then have m: "(sub = ''new-session'' \<and> isCeaSession nm \<and> names = setAdd (tmuxSessions state) (the nm))
          \<or> (sub = ''kill-session'' \<and> isCeaSession nm \<and> names = setDelete (tmuxSessions state) (the nm))
          \<or> (sub = ''kill-server'' \<and> names = [])"
      by (auto simp add: names_def)
    note r = getOrCreate_result [OF g]
    have f: "homeDir wm = homeDir w" "files wm = files w" "dirs wm = dirs w" "refused wm = refused w"
      using r by (simp_all add: wm_def)
    have si: "sessionID st = i" using g by (simp add: st_def i)
    have "\<exists>w'. saveShellInteractSessionState st wm = (Inr (), w')"
      using ok unfolding si [symmetric]
      by (intro save_ok) (simp_all add: storageReady_frame [OF f] file_path_homeDir [OF f(1)] si)
    then obtain w' where "sv = (Inr (), w')" unfolding sv_def by blast
    then show ?thesis
      unfolding hook_mutating [OF ne g sub_def nm_def m st_def sv_def [unfolded wm_def]] by simp
  next
    case False
    then have m: "\<not> (sub = ''new-session'' \<and> isCeaSession nm)"
       "\<not> (sub = ''kill-session'' \<and> isCeaSession nm)" "sub \<noteq> ''kill-server''"
      by auto
    show ?thesis
      unfolding hook_not_mutating [OF ne g sub_def nm_def m] by simp
  qed
qed


text \<open>
  Claim C8 (as amended). For every session state whose \<open>sessionID\<close> holds no \<open>/\<close> and no
  NUL character, when the storage directory exists or can be made and the file of the
  state can be written: saving the state returns, and loading it back for the same
  \<open>sessionID\<close> then returns a state with the same id and the same tracked-session set
  (the same names in the same order when the state held them without repetition, as a
  set does), and the same timestamp. With a \<open>/\<close> in the id the file lies in a directory
  that nobody makes: for the id \<open>a/b\<close> the save raises and nothing can be loaded.
\<close>

theorem persist_reload_roundtrip:
  fixes st :: ShellInteractSessionState
  assumes "CHR ''/'' \<notin> set (sessionID st)" and "CHR 0x00 \<notin> set (sessionID st)"
    and "storageReady w" and "fileWritable w (getSessionFilePath w (sessionID st))"
  shows "\<exists>w' st'. saveShellInteractSessionState st w = (Inr (), w')
           \<and> loadShellInteractSessionState (sessionID st) w' = Some st'
           \<and> sessionID st' = sessionID st
           \<and> set (tmuxSessions st') = set (tmuxSessions st)
           \<and> (distinct (tmuxSessions st) \<longrightarrow> tmuxSessions st' = tmuxSessions st)
           \<and> updatedAt st' = updatedAt st"
proof -
  obtain w' where s: "saveShellInteractSessionState st w = (Inr (), w')"
    using save_ok [OF assms] by blast
  have "loadShellInteractSessionState (sessionID st) w'
          = Some \<lparr>sessionID = sessionID st, tmuxSessions = newSet (tmuxSessions st),
                  updatedAt = updatedAt st\<rparr>"
    using load_returned [OF save_returned [OF s] refl] by simp
  with s show ?thesis
    by (simp add: set_newSet newSet_distinct)
qed

theorem persist_reload_roundtrip_witness:
  "loadShellInteractSessionState ''s1''
      (snd (saveShellInteractSessionState
         \<lparr>sessionID = ''s1'', tmuxSessions = [''cea-a'', ''cea-b''], updatedAt = 5\<rparr> emptyWorld))
     = Some \<lparr>sessionID = ''s1'', tmuxSessions = [''cea-a'', ''cea-b''], updatedAt = 5\<rparr>
   \<and> fst (saveShellInteractSessionState
         \<lparr>sessionID = ''s1'', tmuxSessions = [''cea-a'', ''cea-b''], updatedAt = 5\<rparr> emptyWorld)
       = Inr ()"
proof -
  let ?st = "\<lparr>sessionID = ''s1'', tmuxSessions = [''cea-a'', ''cea-b''], updatedAt = 5\<rparr>"
  have a: "CHR ''/'' \<notin> set (sessionID ?st)" "CHR 0x00 \<notin> set (sessionID ?st)"
    by simp_all
  have b: "storageReady emptyWorld"
    by (simp add: storageReady_def fs_eval emptyWorld_def)
  have c: "fileWritable emptyWorld (getSessionFilePath emptyWorld (sessionID ?st))"
    by (simp add: fileWritable_def emptyWorld_def)
  have d: "distinct (tmuxSessions ?st)" by simp
  obtain w' st' where s: "saveShellInteractSessionState ?st emptyWorld = (Inr (), w')"
    and l: "loadShellInteractSessionState (sessionID ?st) w' = Some st'"
    and i: "sessionID st' = sessionID ?st"
    and t: "distinct (tmuxSessions ?st) \<longrightarrow> tmuxSessions st' = tmuxSessions ?st"
    and u: "updatedAt st' = updatedAt ?st"
    using persist_reload_roundtrip [OF a b c] by blast
  have "st' = ?st" using i t d u by simp
  with s l show ?thesis by simp
qed

theorem persist_reload_counterexample:
  "fst (saveShellInteractSessionState
         \<lparr>sessionID = ''a/b'', tmuxSessions = [''cea-a''], updatedAt = 5\<rparr> emptyWorld)
     = Inl ENOENT
   \<and> loadShellInteractSessionState ''a/b''
        (snd (saveShellInteractSessionState
           \<lparr>sessionID = ''a/b'', tmuxSessions = [''cea-a''], updatedAt = 5\<rparr> emptyWorld))
       = None"
  by (simp add: fs_eval emptyWorld_def)

text \<open>
  Claim C10. When the tool output starts with \<open>Error:\<close>, the hook returns that output
  unchanged with no reminder, and the whole state is left as it was: no in-memory state
  is created or changed and no file or directory is written.
\<close>

theorem hook_error_passthrough:
  assumes "startsWith toolOutput ''Error:''"
  shows "shellInteractHook sid tmuxCommand toolOutput w
           = (Inr \<lparr>output = toolOutput, sessionReminder = None\<rparr>, w)"
  using assms by (simp add: shellInteractHook_def)

theorem hook_error_passthrough_witness:
  "shellInteractHook ''s1'' ''new-session -d -s cea-build'' ''Error: duplicate session: cea-build''
       emptyWorld
     = (Inr \<lparr>output = ''Error: duplicate session: cea-build'', sessionReminder = None\<rparr>,
        emptyWorld)"
proof -
  have "startsWith ''Error: duplicate session: cea-build'' ''Error:''"
    by (simp add: startsWith_def)
  then show ?thesis by (rule hook_error_passthrough)
qed


text \<open>
  Claim C1 (as amended). When the tool output does not start with \<open>Error:\<close>, the hook
  updates the tracked-session set thus: a \<open>new-session\<close> whose resolved name (the value of
  \<open>-s\<close>, else of \<open>-t\<close>, cut at the first \<open>:\<close> or \<open>.\<close>) starts with \<open>cea-\<close> adds that
  name; a \<open>kill-session\<close> whose resolved name (the value of \<open>-t\<close>, cut likewise) starts
  with \<open>cea-\<close> removes it; \<open>kill-server\<close> clears the set; any other command leaves it
  unchanged. Creating \<open>cea-build\<close> gives the set \<open>{cea-build}\<close>, killing it then gives
  the empty set, \<open>kill-server\<close> on \<open>{cea-a, cea-b}\<close> gives the empty set, and a target
  \<open>cea-x:0.1\<close> is tracked as \<open>cea-x\<close>.
\<close>

theorem hook_tracks_sessions:
  "(\<not> startsWith toolOutput ''Error:'' \<longrightarrow>
      set (trackedSessions sid (snd (shellInteractHook sid cmd toolOutput w))) =
        (let sub = findSubcommand (tokenizeCommand cmd);
             nm = resolvedTarget (tokenizeCommand cmd) sub;
             before = set (trackedSessions sid w)
         in if sub = ''new-session'' \<and> isCeaSession nm then insert (the nm) before
            else if sub = ''kill-session'' \<and> isCeaSession nm then before - {the nm}
            else if sub = ''kill-server'' then {}
            else before))
   \<and> set (trackedSessions ''s1'' (snd (shellInteractHook ''s1'' ''new-session -d -s cea-build''
            ''(no output)'' emptyWorld))) = {''cea-build''}
   \<and> set (trackedSessions ''s1'' (snd (shellInteractHook ''s1'' ''kill-session -t cea-build''
            ''(no output)''
            (snd (shellInteractHook ''s1'' ''new-session -d -s cea-build'' ''(no output)''
                    emptyWorld))))) = {}
   \<and> set (trackedSessions ''s1'' (snd (shellInteractHook ''s1'' ''kill-server'' ''(no output)''
            (worldTracking [''cea-a'', ''cea-b''])))) = {}
   \<and> set (trackedSessions ''s1'' (snd (shellInteractHook ''s1'' ''new-session -d -t cea-x:0.1''
            ''(no output)'' emptyWorld))) = {''cea-x''}"
proof (intro conjI impI)
  assume "\<not> startsWith toolOutput ''Error:''"
  then show "set (trackedSessions sid (snd (shellInteractHook sid cmd toolOutput w))) =
        (let sub = findSubcommand (tokenizeCommand cmd);
             nm = resolvedTarget (tokenizeCommand cmd) sub;
             before = set (trackedSessions sid w)
         in if sub = ''new-session'' \<and> isCeaSession nm then insert (the nm) before
            else if sub = ''kill-session'' \<and> isCeaSession nm then before - {the nm}
            else if sub = ''kill-server'' then {}
            else before)"
    by (rule hook_tracked_set)
next
  show "set (trackedSessions ''s1'' (snd (shellInteractHook ''s1'' ''new-session -d -s cea-build''
            ''(no output)'' emptyWorld))) = {''cea-build''}"
    by (simp add: hook_eval)
next
  show "set (trackedSessions ''s1'' (snd (shellInteractHook ''s1'' ''kill-session -t cea-build''
            ''(no output)''
            (snd (shellInteractHook ''s1'' ''new-session -d -s cea-build'' ''(no output)''
                    emptyWorld))))) = {}"
    by (simp add: hook_eval)
next
  show "set (trackedSessions ''s1'' (snd (shellInteractHook ''s1'' ''kill-server'' ''(no output)''
            (worldTracking [''cea-a'', ''cea-b''])))) = {}"
    by (simp add: hook_eval)
next
  show "set (trackedSessions ''s1'' (snd (shellInteractHook ''s1'' ''new-session -d -t cea-x:0.1''
            ''(no output)'' emptyWorld))) = {''cea-x''}"
    by (simp add: hook_eval)
qed

theorem hook_tracks_sessions_witness:
  "set (trackedSessions ''s1'' (snd (shellInteractHook ''s1'' ''kill-session -t cea-a:1''
          ''(no output)'' (worldTracking [''cea-a'', ''cea-b''])))) = {''cea-b''}"
proof -
  have ne: "\<not> startsWith ''(no output)'' ''Error:''"
    by (simp add: startsWith_def)
  have sub: "findSubcommand (tokenizeCommand ''kill-session -t cea-a:1'') = ''kill-session''"
    by (simp add: hook_eval)
  have nm: "resolvedTarget (tokenizeCommand ''kill-session -t cea-a:1'') ''kill-session''
              = Some ''cea-a''"
    by (simp add: hook_eval resolvedTarget_def truncateAtSeparator_def)
  have cea: "isCeaSession (Some ''cea-a'')"
    by (simp add: hook_eval)
  have before: "set (trackedSessions ''s1'' (worldTracking [''cea-a'', ''cea-b''])) = {''cea-a'', ''cea-b''}"
    by (simp add: hook_eval)
  have "set (trackedSessions ''s1'' (snd (shellInteractHook ''s1'' ''kill-session -t cea-a:1''
          ''(no output)'' (worldTracking [''cea-a'', ''cea-b''])))) = {''cea-a'', ''cea-b''} - {''cea-a''}"
    using hook_tracks_sessions [where toolOutput = "''(no output)''" and sid = "''s1''"
        and cmd = "''kill-session -t cea-a:1''" and w = "worldTracking [''cea-a'', ''cea-b'']"]
      ne
    by (simp add: Let_def sub nm cea before)
  then show ?thesis by auto
qed

theorem hook_error_counterexample:
  "findSubcommand (tokenizeCommand ''new-session -d -s cea-build'') = ''new-session''
   \<and> resolvedTarget (tokenizeCommand ''new-session -d -s cea-build'') ''new-session''
       = Some ''cea-build''
   \<and> isCeaSession (Some ''cea-build'')
   \<and> set (trackedSessions ''s1'' (snd (shellInteractHook ''s1'' ''new-session -d -s cea-build''
        ''Error: duplicate session: cea-build'' emptyWorld))) = {}
   \<and> ''cea-build'' \<notin> set (trackedSessions ''s1'' (snd (shellInteractHook ''s1''
        ''new-session -d -s cea-build'' ''Error: duplicate session: cea-build'' emptyWorld)))"
  by (simp add: hook_eval resolvedTarget_def truncateAtSeparator_def)

text \<open>
  Claim C4 (as amended). When the tool output does not start with \<open>Error:\<close> and the hook
  returns: for a lifecycle command (\<open>new-session\<close>, \<open>kill-session\<close>, \<open>kill-server\<close>) the
  returned output is the tool output followed, when at least one session is tracked
  after the mutation, by the reminder line that lists the names tracked after the
  mutation, in order and separated by commas, and, for a \<open>new-session\<close> whose resolved
  name starts with \<open>cea-\<close>, by the follow-up guidance naming that session; when no
  session is tracked afterwards nothing is appended. A created name is among the names
  listed, a killed one is not, and after a mutation the document on disk holds the names
  listed. For every other command the output is returned unchanged with no reminder.
  The hook raises, and returns nothing, only when a mutation was made and its
  persistence write raised; it returns whenever the storage directory exists or can be
  made, the conversation's \<open>sessionID\<close> holds no \<open>/\<close> and no NUL, and its file can be
  written.
\<close>

theorem hook_reminder:
  "\<not> startsWith toolOutput ''Error:'' \<longrightarrow>
     (let sub = findSubcommand (tokenizeCommand cmd);
          nm = resolvedTarget (tokenizeCommand cmd) sub;
          res = fst (shellInteractHook sid cmd toolOutput w);
          w' = snd (shellInteractHook sid cmd toolOutput w);
          names = trackedSessions sid w';
          created = (sub = ''new-session'' \<and> isCeaSession nm);
          killed = (sub = ''kill-session'' \<and> isCeaSession nm);
          mutating = (created \<or> killed \<or> sub = ''kill-server'');
          i = sessionID (fst (getOrCreateState sid w))
      in (case res of
            Inl e \<Rightarrow> mutating
          | Inr r \<Rightarrow>
              (if sub = ''new-session'' \<or> sub = ''kill-session'' \<or> sub = ''kill-server''
               then output r = toolOutput @
                      (if names = [] then []
                       else [newline, newline] @ ''[System Reminder] Active cea-* tmux sessions: ''
                              @ hd names @ concat (map ((@) '', '') (tl names))
                              @ (if created
                                 then [newline] @ ''[Action Required] Background process started in ''
                                   @ [squote] @ the nm @ [squote] @ ''. Before reporting completion:''
                                   @ [newline] @ ''  1. Wait: shell_execute sleep 2-5''
                                   @ [newline]
                                   @ ''  2. Verify output: shell_execute tmux capture-pane -t ''
                                   @ the nm @ '' -p''
                                   @ [newline]
                                   @ ''  3. For servers: test the endpoint (e.g., curl localhost:PORT)''
                                 else []))
                    \<and> (\<forall>n\<in>set names. \<exists>pre post. output r = toolOutput @ pre @ n @ post)
               else output r = toolOutput \<and> sessionReminder r = None)
              \<and> (mutating \<longrightarrow> persistedSessions sid w' = Some names))
         \<and> (created \<longrightarrow> the nm \<in> set names)
         \<and> (killed \<longrightarrow> the nm \<notin> set names)
         \<and> (storageReady w \<and> CHR ''/'' \<notin> set i \<and> CHR 0x00 \<notin> set i
              \<and> fileWritable w (getSessionFilePath w i)
             \<longrightarrow> (\<exists>r. res = Inr r)))"
proof
  assume ne: "\<not> startsWith toolOutput ''Error:''"
  obtain state w1 where g: "getOrCreateState sid w = (state, w1)"
    by fastforce
  define sub where "sub = findSubcommand (tokenizeCommand cmd)"
  define nm where "nm = resolvedTarget (tokenizeCommand cmd) sub"
  define res where "res = fst (shellInteractHook sid cmd toolOutput w)"
  define w' where "w' = snd (shellInteractHook sid cmd toolOutput w)"
  define names where "names = trackedSessions sid w'"
  define created where "created = (sub = ''new-session'' \<and> isCeaSession nm)"
  define killed where "killed = (sub = ''kill-session'' \<and> isCeaSession nm)"
  define mutating where "mutating = (created \<or> killed \<or> sub = ''kill-server'')"
  define i where "i = sessionID (fst (getOrCreateState sid w))"
  have hw: "names = (if created then setAdd (tmuxSessions state) (the nm)
                     else if killed then setDelete (tmuxSessions state) (the nm)
                     else if sub = ''kill-server'' then []
                     else tmuxSessions state)"
    unfolding names_def w'_def hook_world [OF ne g] Let_def created_def killed_def nm_def sub_def
    by (rule refl)
  have c: "created \<longrightarrow> the nm \<in> set names"
    by (simp add: hw set_setAdd)
  have k: "killed \<longrightarrow> the nm \<notin> set names"
    by (auto simp add: hw set_setDelete created_def killed_def)
  have ret: "storageReady w \<and> CHR ''/'' \<notin> set i \<and> CHR 0x00 \<notin> set i
              \<and> fileWritable w (getSessionFilePath w i) \<longrightarrow> (\<exists>r. res = Inr r)"
    unfolding res_def using hook_returns [OF ne i_def] by blast
  have main: "case res of
            Inl e \<Rightarrow> mutating
          | Inr r \<Rightarrow>
              (if sub = ''new-session'' \<or> sub = ''kill-session'' \<or> sub = ''kill-server''
               then output r = toolOutput @
                      (if names = [] then []
                       else [newline, newline] @ ''[System Reminder] Active cea-* tmux sessions: ''
                              @ hd names @ concat (map ((@) '', '') (tl names))
                              @ (if created
                                 then [newline] @ ''[Action Required] Background process started in ''
                                   @ [squote] @ the nm @ [squote] @ ''. Before reporting completion:''
                                   @ [newline] @ ''  1. Wait: shell_execute sleep 2-5''
                                   @ [newline]
                                   @ ''  2. Verify output: shell_execute tmux capture-pane -t ''
                                   @ the nm @ '' -p''
                                   @ [newline]
                                   @ ''  3. For servers: test the endpoint (e.g., curl localhost:PORT)''
                                 else []))
                    \<and> (\<forall>n\<in>set names. \<exists>pre post. output r = toolOutput @ pre @ n @ post)
               else output r = toolOutput \<and> sessionReminder r = None)
              \<and> (mutating \<longrightarrow> persistedSessions sid w' = Some names)"
  proof (cases res)
    case (Inl e)
    then have "mutating"
      using hook_raised [OF ne _ sub_def nm_def, of sid w e]
      by (simp add: res_def mutating_def created_def killed_def)
    with Inl show ?thesis by simp
  next
    case (Inr r)
    then have h: "shellInteractHook sid cmd toolOutput w = (Inr r, w')"
      by (simp add: res_def w'_def prod_eq_iff)
    note hr = hook_returned [OF ne h sub_def nm_def]
    let ?nc = "if sub = ''new-session'' \<and> isCeaSession nm then nm else None"
    have tr: "truthy ?nc = created"
      by (simp add: created_def cea_nonempty truthy_None)
    have p: "mutating \<longrightarrow> persistedSessions sid w' = Some names"
      using hr(2) by (auto simp add: mutating_def created_def killed_def names_def)
    show ?thesis
    proof (cases "sub = ''new-session'' \<or> sub = ''kill-session'' \<or> sub = ''kill-server''")
      case True
      then have o: "output r = toolOutput @ buildSessionReminderMessage names ?nc"
        using hr(1) by (simp add: names_def)
      have l: "\<forall>n\<in>set names. \<exists>pre post. output r = toolOutput @ pre @ n @ post"
        unfolding o using reminder_lists [of _ names ?nc] by simp
      have t: "output r = toolOutput @
                      (if names = [] then []
                       else [newline, newline] @ ''[System Reminder] Active cea-* tmux sessions: ''
                              @ hd names @ concat (map ((@) '', '') (tl names))
                              @ (if created
                                 then [newline] @ ''[Action Required] Background process started in ''
                                   @ [squote] @ the nm @ [squote] @ ''. Before reporting completion:''
                                   @ [newline] @ ''  1. Wait: shell_execute sleep 2-5''
                                   @ [newline]
                                   @ ''  2. Verify output: shell_execute tmux capture-pane -t ''
                                   @ the nm @ '' -p''
                                   @ [newline]
                                   @ ''  3. For servers: test the endpoint (e.g., curl localhost:PORT)''
                                 else []))"
        unfolding o reminder_text [of names ?nc] tr
        by (simp add: created_def)
      from t l p True Inr show ?thesis by simp
    next
      case False
      then have "output r = toolOutput \<and> sessionReminder r = None"
        using hr(1) by simp
      with p False Inr show ?thesis by simp
    qed
  qed
  from main c k ret
  show "(let sub = findSubcommand (tokenizeCommand cmd);
          nm = resolvedTarget (tokenizeCommand cmd) sub;
          res = fst (shellInteractHook sid cmd toolOutput w);
          w' = snd (shellInteractHook sid cmd toolOutput w);
          names = trackedSessions sid w';
          created = (sub = ''new-session'' \<and> isCeaSession nm);
          killed = (sub = ''kill-session'' \<and> isCeaSession nm);
          mutating = (created \<or> killed \<or> sub = ''kill-server'');
          i = sessionID (fst (getOrCreateState sid w))
      in (case res of
            Inl e \<Rightarrow> mutating
          | Inr r \<Rightarrow>
              (if sub = ''new-session'' \<or> sub = ''kill-session'' \<or> sub = ''kill-server''
               then output r = toolOutput @
                      (if names = [] then []
                       else [newline, newline] @ ''[System Reminder] Active cea-* tmux sessions: ''
                              @ hd names @ concat (map ((@) '', '') (tl names))
                              @ (if created
                                 then [newline] @ ''[Action Required] Background process started in ''
                                   @ [squote] @ the nm @ [squote] @ ''. Before reporting completion:''
                                   @ [newline] @ ''  1. Wait: shell_execute sleep 2-5''
                                   @ [newline]
                                   @ ''  2. Verify output: shell_execute tmux capture-pane -t ''
                                   @ the nm @ '' -p''
                                   @ [newline]
                                   @ ''  3. For servers: test the endpoint (e.g., curl localhost:PORT)''
                                 else []))
                    \<and> (\<forall>n\<in>set names. \<exists>pre post. output r = toolOutput @ pre @ n @ post)
               else output r = toolOutput \<and> sessionReminder r = None)
              \<and> (mutating \<longrightarrow> persistedSessions sid w' = Some names))
         \<and> (created \<longrightarrow> the nm \<in> set names)
         \<and> (killed \<longrightarrow> the nm \<notin> set names)
         \<and> (storageReady w \<and> CHR ''/'' \<notin> set i \<and> CHR 0x00 \<notin> set i
              \<and> fileWritable w (getSessionFilePath w i)
             \<longrightarrow> (\<exists>r. res = Inr r)))"
    unfolding Let_def sub_def [symmetric] nm_def [symmetric] res_def [symmetric]
      w'_def [symmetric] names_def [symmetric] created_def [symmetric] killed_def [symmetric]
      mutating_def [symmetric] i_def [symmetric]
    by blast
qed


theorem hook_reminder_witness:
  "(\<exists>r. fst (shellInteractHook ''s1'' ''new-session -d -s cea-build'' ''(no output)'' emptyWorld)
          = Inr r
        \<and> output r = ''(no output)'' @ [newline, newline]
            @ ''[System Reminder] Active cea-* tmux sessions: cea-build''
            @ [newline] @ ''[Action Required] Background process started in ''
            @ [squote] @ ''cea-build'' @ [squote] @ ''. Before reporting completion:''
            @ [newline] @ ''  1. Wait: shell_execute sleep 2-5''
            @ [newline] @ ''  2. Verify output: shell_execute tmux capture-pane -t cea-build -p''
            @ [newline] @ ''  3. For servers: test the endpoint (e.g., curl localhost:PORT)'')
   \<and> persistedSessions ''s1''
        (snd (shellInteractHook ''s1'' ''new-session -d -s cea-build'' ''(no output)'' emptyWorld))
       = Some [''cea-build'']"
proof -
  have ne: "\<not> startsWith ''(no output)'' ''Error:''"
    by (simp add: startsWith_def)
  have sub: "findSubcommand (tokenizeCommand ''new-session -d -s cea-build'') = ''new-session''"
    by (simp add: hook_eval)
  have nm: "resolvedTarget (tokenizeCommand ''new-session -d -s cea-build'') ''new-session''
              = Some ''cea-build''"
    by (simp add: hook_eval resolvedTarget_def truncateAtSeparator_def)
  have cea: "isCeaSession (Some ''cea-build'')"
    by (simp add: hook_eval)
  have names: "trackedSessions ''s1'' (snd (shellInteractHook ''s1'' ''new-session -d -s cea-build''
      ''(no output)'' emptyWorld)) = [''cea-build'']"
    by (simp add: hook_eval)
  have i: "sessionID (fst (getOrCreateState ''s1'' emptyWorld)) = ''s1''"
    by (simp add: hook_eval)
  have ready: "storageReady emptyWorld"
    by (simp add: storageReady_def fs_eval emptyWorld_def)
  have writable: "fileWritable emptyWorld (getSessionFilePath emptyWorld ''s1'')"
    by (simp add: fileWritable_def emptyWorld_def)
  show ?thesis
    using hook_reminder [where toolOutput = "''(no output)''" and sid = "''s1''"
        and cmd = "''new-session -d -s cea-build''" and w = emptyWorld] ne
    by (auto simp add: Let_def sub nm cea names i ready writable)
qed

theorem hook_reminder_counterexample:
  "findSubcommand (tokenizeCommand ''kill-server'') = ''kill-server''
   \<and> fst (shellInteractHook ''s1'' ''kill-server'' ''(no output)''
        (worldTracking [''cea-a'', ''cea-b'']))
       = Inr \<lparr>output = ''(no output)'', sessionReminder = Some []\<rparr>
   \<and> findSubcommand (tokenizeCommand ''kill-session -t cea-a'') = ''kill-session''
   \<and> fst (shellInteractHook ''s1'' ''kill-session -t cea-a'' ''Error: no server running''
        (worldTracking [''cea-a'', ''cea-b'']))
       = Inr \<lparr>output = ''Error: no server running'', sessionReminder = None\<rparr>
   \<and> trackedSessions ''s1'' (snd (shellInteractHook ''s1'' ''kill-session -t cea-a''
        ''Error: no server running'' (worldTracking [''cea-a'', ''cea-b''])))
       = [''cea-a'', ''cea-b'']
   \<and> findSubcommand (tokenizeCommand ''new-session -d -s cea-build'') = ''new-session''
   \<and> fst (shellInteractHook ''a/b'' ''new-session -d -s cea-build'' ''(no output)'' emptyWorld)
       = Inl ENOENT"
  by (simp add: hook_eval)


section \<open>Theorems: output stall detector\<close>

lemma sampleLoop_samples:
  "0 \<le> i \<Longrightarrow> length (fst acc) = nat i \<Longrightarrow>
   fst (sampleLoop pane sid count pause i acc)
     = fst acc @ map (\<lambda>k. capturePane (pane k)) [nat i..<nat count]"
proof (induction pane sid count pause i acc rule: sampleLoop.induct)
  case (1 pane sid count pause i acc)
  show ?case
  proof (cases "i < count")
    case True
    have n: "nat (i + 1) = Suc (nat i)" using "1.prems" by simp
    have u: "[nat i..<nat count] = nat i # [Suc (nat i)..<nat count]"
      using True "1.prems" by (simp add: upt_conv_Cons)
    have "fst (sampleLoop pane sid count pause i acc)
        = fst (sampleLoop pane sid count pause (i + 1)
             (fst acc @ [capturePane (pane (length (fst acc)))],
              snd acc @ [CapturePane sid] @ (if i < count - 1 then [pause] else [])))"
      using True by (subst sampleLoop.simps) simp
    also have "\<dots> = (fst acc @ [capturePane (pane (length (fst acc)))])
                     @ map (\<lambda>k. capturePane (pane k)) [nat (i + 1)..<nat count]"
      using True "1.prems" by (subst "1.IH") simp_all
    finally show ?thesis using "1.prems" by (simp add: n u)
  next
    case False
    then have "nat count \<le> nat i" by simp
    then have "[nat i..<nat count] = []" by simp
    moreover have "sampleLoop pane sid count pause i acc = acc"
      using False by (subst sampleLoop.simps) simp
    ultimately show ?thesis by simp
  qed
qed

lemma sampleLoop_taken:
  "fst (sampleLoop pane sid count pause 0 ([], [])) = samplesTaken pane count"
  using sampleLoop_samples [of 0 "([], [])" pane sid count pause]
  by (simp add: samplesTaken_def)

lemma countUnchanged_pairs:
  "1 \<le> i \<Longrightarrow> countUnchanged xs i c
     = c + length (filter (\<lambda>(a, b). a = b) (zip (drop (i - 1) xs) (drop i xs)))"
proof (induction xs i c rule: countUnchanged.induct)
  case (1 xs i c)
  show ?case
  proof (cases "i < length xs")
    case True
    have d1: "drop (i - 1) xs = xs ! (i - 1) # drop i xs"
      using True "1.prems" Cons_nth_drop_Suc [of "i - 1" xs] by simp
    have d2: "drop i xs = xs ! i # drop (Suc i) xs"
      using True by (simp add: Cons_nth_drop_Suc)
    have "countUnchanged xs i c
        = countUnchanged xs (Suc i) (if xs ! i = xs ! (i - 1) then Suc c else c)"
      using True by (subst countUnchanged.simps) simp
    also have "\<dots> = (if xs ! i = xs ! (i - 1) then Suc c else c)
        + length (filter (\<lambda>(a, b). a = b) (zip (drop i xs) (drop (Suc i) xs)))"
      using True by (subst "1.IH") simp_all
    also have "\<dots> = c + length (filter (\<lambda>(a, b). a = b) (zip (drop (i - 1) xs) (drop i xs)))"
      by (subst d1, subst (3) d2) auto
    finally show ?thesis .
  next
    case False
    then have "drop i xs = []" by simp
    moreover have "countUnchanged xs i c = c"
      using False by (subst countUnchanged.simps) simp
    ultimately show ?thesis by simp
  qed
qed

lemma countUnchanged_adjacent: "countUnchanged xs (Suc 0) 0 = adjacentEqualPairs xs"
  using countUnchanged_pairs [of 1 xs 0] by (simp add: adjacentEqualPairs_def drop_Suc)

lemma taken_length: "length (samplesTaken pane n) = nat n"
  by (simp add: samplesTaken_def)

lemma adjacent_Nil: "adjacentEqualPairs [] = 0"
  by (simp add: adjacentEqualPairs_def)

lemma verdict_fields:
  assumes "length xs = nat n"
  shows "unchangedCount (stallVerdict n iv xs) = adjacentEqualPairs xs"
    and "isStalled (stallVerdict n iv xs) = (int (adjacentEqualPairs xs) = int (length xs) - 1)"
    and "confidence (stallVerdict n iv xs)
          = (if int (adjacentEqualPairs xs) = int (length xs) - 1 \<and> length xs \<ge> 3 then High
             else if real (adjacentEqualPairs xs) \<ge> real (length xs) / 2 then Medium
             else Low)"
    and "lastOutput (stallVerdict n iv xs) = (if xs = [] then [] else last xs)"
    and "sampleCount (stallVerdict n iv xs) = n"
proof -
  show "unchangedCount (stallVerdict n iv xs) = adjacentEqualPairs xs"
    by (simp add: stallVerdict_def Let_def countUnchanged_adjacent)
  show "lastOutput (stallVerdict n iv xs) = (if xs = [] then [] else last xs)"
    by (simp add: stallVerdict_def Let_def)
  show "sampleCount (stallVerdict n iv xs) = n"
    by (simp add: stallVerdict_def Let_def)
  show "isStalled (stallVerdict n iv xs) = (int (adjacentEqualPairs xs) = int (length xs) - 1)"
  proof (cases "0 \<le> n")
    case True
    then show ?thesis using assms
      by (simp add: stallVerdict_def Let_def countUnchanged_adjacent)
  next
    case False
    then have "xs = []" using assms by simp
    then show ?thesis using False
      by (simp add: stallVerdict_def Let_def countUnchanged_adjacent adjacent_Nil)
  qed
  show "confidence (stallVerdict n iv xs)
          = (if int (adjacentEqualPairs xs) = int (length xs) - 1 \<and> length xs \<ge> 3 then High
             else if real (adjacentEqualPairs xs) \<ge> real (length xs) / 2 then Medium
             else Low)"
  proof (cases "0 \<le> n")
    case True
    then have l: "int (length xs) = n" "real (length xs) = real_of_int n" "(3 \<le> length xs) = (3 \<le> n)"
      using assms by auto
    show ?thesis
      by (simp add: stallVerdict_def Let_def countUnchanged_adjacent l)
  next
    case False
    then have "xs = []" using assms by simp
    then show ?thesis using False
      by (simp add: stallVerdict_def Let_def countUnchanged_adjacent adjacent_Nil)
  qed
qed

lemma async_result:
  "fst (detectOutputStall \<lparr>optSampleCount = Some n, optSampleIntervalMs = iv, sessionId = sid\<rparr> pane)
     = stallVerdict n (case iv of None \<Rightarrow> 500 | Some m \<Rightarrow> m) (samplesTaken pane n)"
  using sampleLoop_taken [of pane sid n "Sleep (case iv of None \<Rightarrow> 500 | Some m \<Rightarrow> m)"]
  by (simp add: detectOutputStall_def Let_def split_beta)

lemma sync_result:
  "fst (detectOutputStallSync sid (Some n) iv pane)
     = stallVerdict n (case iv of None \<Rightarrow> 300 | Some m \<Rightarrow> m) (samplesTaken pane n)"
  using sampleLoop_taken [of pane sid n "SpawnSleep (case iv of None \<Rightarrow> 300 | Some m \<Rightarrow> m)"]
  by (simp add: detectOutputStallSync_def Let_def split_beta)

lemmas stall_eval = detectOutputStall_def detectOutputStallSync_def stallVerdict_def
  sampleLoop.simps countUnchanged.simps capturePane_def paneShowing_def isSleepEffect_def
  Let_def split_beta

lemma taken_showing: "samplesTaken (paneShowing xs) (int (length xs)) = xs"
  by (rule nth_equalityI) (simp_all add: samplesTaken_def paneShowing_def capturePane_def)

text \<open>
  Claim C3. For every pane and sample count, with \<open>N\<close> the number of samples taken (and
  every sequence of texts is the samples of some pane): \<open>unchangedCount\<close> is the number
  of adjacent pairs of identical samples; \<open>isStalled\<close> holds exactly when
  \<open>unchangedCount = N - 1\<close>; the confidence is high if stalled and \<open>N \<ge> 3\<close>, else medium
  if \<open>unchangedCount \<ge> N / 2\<close>, else low; and \<open>lastOutput\<close> is the final sample (the empty
  text when no sample was taken). This holds of both variants.
  Samples A, A, A are stalled with high confidence; A, B, C are not stalled with
  \<open>unchangedCount = 0\<close>; A, A, B are not stalled with \<open>unchangedCount = 1\<close>.
\<close>

theorem stall_detector_verdict:
  "(let r = fst (detectOutputStall
                  \<lparr>optSampleCount = Some n, optSampleIntervalMs = iv, sessionId = sid\<rparr> pane);
        xs = samplesTaken pane n
    in length xs = nat n
       \<and> unchangedCount r = adjacentEqualPairs xs
       \<and> isStalled r = (int (unchangedCount r) = int (length xs) - 1)
       \<and> confidence r = (if isStalled r \<and> length xs \<ge> 3 then High
                          else if real (unchangedCount r) \<ge> real (length xs) / 2 then Medium
                          else Low)
       \<and> lastOutput r = (if xs = [] then [] else last xs))
   \<and> (let r = fst (detectOutputStallSync sid (Some n) iv pane);
            xs = samplesTaken pane n
        in unchangedCount r = adjacentEqualPairs xs
           \<and> isStalled r = (int (unchangedCount r) = int (length xs) - 1)
           \<and> confidence r = (if isStalled r \<and> length xs \<ge> 3 then High
                              else if real (unchangedCount r) \<ge> real (length xs) / 2 then Medium
                              else Low)
           \<and> lastOutput r = (if xs = [] then [] else last xs))
   \<and> samplesTaken (paneShowing ys) (int (length ys)) = ys
   \<and> isStalled (fst (detectOutputStall
        \<lparr>optSampleCount = Some 3, optSampleIntervalMs = None, sessionId = ''cea-x''\<rparr>
        (paneShowing [''A'', ''A'', ''A''])))
   \<and> confidence (fst (detectOutputStall
        \<lparr>optSampleCount = Some 3, optSampleIntervalMs = None, sessionId = ''cea-x''\<rparr>
        (paneShowing [''A'', ''A'', ''A'']))) = High
   \<and> \<not> isStalled (fst (detectOutputStall
        \<lparr>optSampleCount = Some 3, optSampleIntervalMs = None, sessionId = ''cea-x''\<rparr>
        (paneShowing [''A'', ''B'', ''C''])))
   \<and> unchangedCount (fst (detectOutputStall
        \<lparr>optSampleCount = Some 3, optSampleIntervalMs = None, sessionId = ''cea-x''\<rparr>
        (paneShowing [''A'', ''B'', ''C'']))) = 0
   \<and> \<not> isStalled (fst (detectOutputStall
        \<lparr>optSampleCount = Some 3, optSampleIntervalMs = None, sessionId = ''cea-x''\<rparr>
        (paneShowing [''A'', ''A'', ''B''])))
   \<and> unchangedCount (fst (detectOutputStall
        \<lparr>optSampleCount = Some 3, optSampleIntervalMs = None, sessionId = ''cea-x''\<rparr>
        (paneShowing [''A'', ''A'', ''B'']))) = 1"
proof -
  have l: "length (samplesTaken pane n) = nat n"
    by (rule taken_length)
  note f = verdict_fields [OF l]
  have a: "let r = fst (detectOutputStall
                  \<lparr>optSampleCount = Some n, optSampleIntervalMs = iv, sessionId = sid\<rparr> pane);
        xs = samplesTaken pane n
    in length xs = nat n
       \<and> unchangedCount r = adjacentEqualPairs xs
       \<and> isStalled r = (int (unchangedCount r) = int (length xs) - 1)
       \<and> confidence r = (if isStalled r \<and> length xs \<ge> 3 then High
                          else if real (unchangedCount r) \<ge> real (length xs) / 2 then Medium
                          else Low)
       \<and> lastOutput r = (if xs = [] then [] else last xs)"
    unfolding Let_def async_result f(1) f(2) f(3) f(4) using l by simp
  have b: "let r = fst (detectOutputStallSync sid (Some n) iv pane);
            xs = samplesTaken pane n
        in unchangedCount r = adjacentEqualPairs xs
           \<and> isStalled r = (int (unchangedCount r) = int (length xs) - 1)
           \<and> confidence r = (if isStalled r \<and> length xs \<ge> 3 then High
                              else if real (unchangedCount r) \<ge> real (length xs) / 2 then Medium
                              else Low)
           \<and> lastOutput r = (if xs = [] then [] else last xs)"
    unfolding Let_def sync_result f(1) f(2) f(3) f(4) by simp
  have e: "isStalled (fst (detectOutputStall
        \<lparr>optSampleCount = Some 3, optSampleIntervalMs = None, sessionId = ''cea-x''\<rparr>
        (paneShowing [''A'', ''A'', ''A''])))
   \<and> confidence (fst (detectOutputStall
        \<lparr>optSampleCount = Some 3, optSampleIntervalMs = None, sessionId = ''cea-x''\<rparr>
        (paneShowing [''A'', ''A'', ''A'']))) = High
   \<and> \<not> isStalled (fst (detectOutputStall
        \<lparr>optSampleCount = Some 3, optSampleIntervalMs = None, sessionId = ''cea-x''\<rparr>
        (paneShowing [''A'', ''B'', ''C''])))
   \<and> unchangedCount (fst (detectOutputStall
        \<lparr>optSampleCount = Some 3, optSampleIntervalMs = None, sessionId = ''cea-x''\<rparr>
        (paneShowing [''A'', ''B'', ''C'']))) = 0
   \<and> \<not> isStalled (fst (detectOutputStall
        \<lparr>optSampleCount = Some 3, optSampleIntervalMs = None, sessionId = ''cea-x''\<rparr>
        (paneShowing [''A'', ''A'', ''B''])))
   \<and> unchangedCount (fst (detectOutputStall
        \<lparr>optSampleCount = Some 3, optSampleIntervalMs = None, sessionId = ''cea-x''\<rparr>
        (paneShowing [''A'', ''A'', ''B'']))) = 1"
    by (simp add: stall_eval)
  from a b e taken_showing [of ys] show ?thesis by blast
qed

text \<open>
  Claim C6 (as amended). When the caller supplies neither, the suspending variant
  \<open>detectOutputStall\<close> takes 3 samples and sleeps 500 ms between them, and the blocking
  variant \<open>detectOutputStallSync\<close> takes 2 samples and sleeps 300 ms between them.
\<close>

theorem stall_detector_defaults:
  "detectOutputStall \<lparr>optSampleCount = None, optSampleIntervalMs = None, sessionId = sid\<rparr> pane
     = detectOutputStall \<lparr>optSampleCount = Some 3, optSampleIntervalMs = Some 500, sessionId = sid\<rparr> pane
   \<and> detectOutputStallSync sid None None pane = detectOutputStallSync sid (Some 2) (Some 300) pane
   \<and> sampleCount (fst (detectOutputStall
         \<lparr>optSampleCount = None, optSampleIntervalMs = None, sessionId = sid\<rparr> pane)) = 3
   \<and> filter isSleepEffect (snd (detectOutputStall
         \<lparr>optSampleCount = None, optSampleIntervalMs = None, sessionId = sid\<rparr> pane))
       = [Sleep 500, Sleep 500]
   \<and> sampleCount (fst (detectOutputStallSync sid None None pane)) = 2
   \<and> filter isSleepEffect (snd (detectOutputStallSync sid None None pane)) = [SpawnSleep 300]"
  by (simp add: detectOutputStall_def detectOutputStallSync_def stallVerdict_def
      sampleLoop.simps isSleepEffect_def Let_def split_beta)

theorem stall_sync_defaults_counterexample:
  "sampleCount (fst (detectOutputStallSync ''cea-x'' None None (paneShowing [''A'', ''A'', ''A''])))
     = 2
   \<and> filter isSleepEffect
        (snd (detectOutputStallSync ''cea-x'' None None (paneShowing [''A'', ''A'', ''A''])))
       = [SpawnSleep 300]
   \<and> detectOutputStallSync ''cea-x'' None None (paneShowing [''A'', ''A'', ''A''])
       \<noteq> detectOutputStallSync ''cea-x'' (Some 3) (Some 500) (paneShowing [''A'', ''A'', ''A''])"
  by (simp add: stall_eval)

section \<open>Theorems: the blocked subcommands of \<^verbatim>\<open>executeTmuxCommand\<close>\<close>

lemmas exec_eval = executeTmuxCommand_def tokenizeCommand_def tokRun_def tokFinish_def tokStep_def
  tokInit_def char_names toLowerCase_def toLowerChar_def BLOCKED_TMUX_SUBCOMMANDS_def
  globalOptionsWithArgs_def startsWith_def emptyWorld_def truthy_def Let_def

text \<open>What the check does reject: a command whose first token, in lower case, is in the
  blocked list. Nothing is spawned and the state is untouched.\<close>

lemma blocked_first_token_rejected:
  assumes "tokenizeCommand cmd = p # ps" and "toLowerCase p \<in> set BLOCKED_TMUX_SUBCOMMANDS"
  shows "executeTmuxCommand cmd outcome w
    = (Inr \<lparr>success = False,
        outputText = ''Error: '' @ [squote] @ p @ [squote]
          @ '' is blocked. Use shell_execute instead for capturing/printing terminal output.''\<rparr>,
       [], w)"
  using assms by (simp add: executeTmuxCommand_def Let_def)

lemma capture_pane_rejected:
  "executeTmuxCommand ''capture-pane -t cea-x -p'' outcome w
    = (Inr \<lparr>success = False,
        outputText = ''Error: '' @ [squote] @ ''capture-pane'' @ [squote]
          @ '' is blocked. Use shell_execute instead for capturing/printing terminal output.''\<rparr>,
       [], w)"
  by (rule blocked_first_token_rejected [where ps = "[''-t'', ''cea-x'', ''-p'']"])
     (simp_all add: exec_eval)

text \<open>
  Claim C5. A command whose subcommand is one of the blocked capture and pipe
  subcommands must be rejected without spawning the multiplexer. The check looks at the
  first token only, so it misses a blocked subcommand that follows a global option: the
  command \<open>-u capture-pane -t cea-x -p\<close> has the subcommand \<open>capture-pane\<close> by the
  classifier \<open>findSubcommand\<close>, which is in the blocked list, and yet a shell is spawned
  with \<open>tmux -u capture-pane -t cea-x -p\<close> and the call succeeds with the pane text.
\<close>

theorem blocked_check_bypass:
  "findSubcommand (tokenizeCommand ''-u capture-pane -t cea-x -p'') = ''capture-pane''
   \<and> ''capture-pane'' \<in> set BLOCKED_TMUX_SUBCOMMANDS
   \<and> fst (executeTmuxCommand ''-u capture-pane -t cea-x -p''
        (ExitEvent False (Some 0) ''pane text'' []) emptyWorld)
       = Inr \<lparr>success = True, outputText = ''pane text''\<rparr>
   \<and> fst (snd (executeTmuxCommand ''-u capture-pane -t cea-x -p''
        (ExitEvent False (Some 0) ''pane text'' []) emptyWorld))
       = [(''/bin/bash'', [''-c'', ''tmux -u capture-pane -t cea-x -p''])]"
  by (simp add: exec_eval)

end
